theory Spec2Isabelle
  imports Main "HOL-Library.Word"
begin

section \<open>The trace collector of pxr/base/lib/trace/collector.h\<close>

text \<open>
  The collector is embedded as state-passing functions. Each call also returns the
  sequence of atomic and list operations it performs (a \<open>step list\<close>), so that the
  order of the operations of one call and their memory orders can be stated. The calling
  thread and the reading of the clock during the call are explicit arguments
  (\<open>tid\<close>, \<open>now\<close>): in the C++ they are the thread-local slot pointer and
  \<open>ArchGetTickTime()\<close>. A call that records several events stamps them all with the
  one reading \<open>now\<close>; no statement below depends on the time stamps of such a call.
\<close>

subsection \<open>Keys, categories, time stamps, payloads\<close>

text \<open>
  \<open>TraceKey\<close> is the static key, \<open>Key\<close> the dynamic key (\<open>TraceDynamicKey\<close>, a
  string). A \<open>double\<close> is carried as its 64-bit pattern and never computed with.
\<close>

type_synonym TraceKey = "64 word"
type_synonym Key = string
type_synonym TraceCategoryId = "32 word"
type_synonym TimeStamp = "64 word"
type_synonym double = "64 word"
type_synonym TraceThreadId = nat

text \<open>
  The key an event is recorded under. A dynamic key is identified by its string: equal
  strings are the same key, different strings different keys, and no dynamic key equals a
  static one (the key cache of the event list is not modelled further).
\<close>

datatype EventKey = StaticKey TraceKey | DynamicKey Key

datatype EventType =
  Begin | End | Timespan | CounterDelta | CounterValue | Data | ScopeData | Marker

text \<open>
  A value handed to \<open>StoreData\<close>, with the C++ type it has there. \<open>CStringValue m\<close>
  is a \<open>const char*\<close> pointing at the bytes \<open>m\<close> (a string literal is passed as one:
  an array of characters converts to the pointer); \<open>StdStringValue s\<close> is a
  \<open>std::string\<close> holding the bytes \<open>s\<close>; \<open>ObjectValue bs\<close> is a value of any other
  non-pointer type, given by its object representation (\<open>sizeof\<close> is its length). A
  pointer of another type is no value here: no overload of \<open>_StoreData\<close> takes it.
\<close>

datatype DataValue =
    BoolValue bool
  | IntValue "32 word"
  | Int64Value "64 word"
  | UInt64Value "64 word"
  | DoubleValue double
  | CStringValue string
  | StdStringValue string
  | ObjectValue string

definition sizeof_uintptr_t :: nat where
  "sizeof_uintptr_t = 8"

text \<open>\<open>sizeof(std::string)\<close> is 32 with libstdc++ on a 64-bit platform.\<close>

fun sizeof :: "DataValue \<Rightarrow> nat" where
  "sizeof (BoolValue b) = 1"
| "sizeof (IntValue i) = 4"
| "sizeof (Int64Value i) = 8"
| "sizeof (UInt64Value u) = 8"
| "sizeof (DoubleValue x) = 8"
| "sizeof (CStringValue m) = sizeof_uintptr_t"
| "sizeof (StdStringValue s) = 32"
| "sizeof (ObjectValue bs) = length bs"

fun is_pointer :: "DataValue \<Rightarrow> bool" where
  "is_pointer (CStringValue m) = True"
| "is_pointer v = False"

text \<open>
  What a \<open>const char*\<close> denotes: the bytes from the pointer up to, not including, the
  first NUL. \<open>c_str\<close> is the buffer \<open>std::string::c_str()\<close> points at: the bytes of
  the string followed by a NUL.
\<close>

definition c_string :: "string \<Rightarrow> string" where
  "c_string m = takeWhile (\<lambda>ch. ch \<noteq> CHR 0x00) m"

definition c_str :: "string \<Rightarrow> string" where
  "c_str s = s @ [CHR 0x00]"

subsection \<open>Events and event lists\<close>

text \<open>
  Modelled from the spec: \<open>TraceEvent\<close> (event.h) is not among the sources. Section 3
  of the specification gives its fields: kind, key, category, time stamp and a payload of
  at most one machine word, which is a value stored inline or a pointer into the arena of
  the list. A \<open>Timespan\<close> keeps its start in the time stamp and its end in the payload.
\<close>

datatype Payload =
    NoPayload
  | EndTime TimeStamp
  | CounterPayload double
  | InlineData DataValue
  | ArenaPointer nat

record TraceEvent =
  etype :: EventType
  ekey :: EventKey
  ecategory :: TraceCategoryId
  etime :: TimeStamp
  epayload :: Payload

text \<open>
  Modelled from the spec: the constructors of \<open>TraceEvent\<close> selected by the tags that
  collector.h passes to \<open>EmplaceBack\<close> (\<open>TraceEvent::Begin\<close>, \<open>Timespan\<close>,
  \<open>CounterDelta\<close>, \<open>CounterValue\<close>, \<open>Data\<close>) and by \<open>End\<close>. Each stamps the event
  with the clock, \<open>now\<close>.
\<close>

definition event_Begin :: "EventKey \<Rightarrow> TraceCategoryId \<Rightarrow> TimeStamp \<Rightarrow> TraceEvent" where
  "event_Begin key cat now =
     \<lparr>etype = Begin, ekey = key, ecategory = cat, etime = now, epayload = NoPayload\<rparr>"

definition event_End :: "EventKey \<Rightarrow> TraceCategoryId \<Rightarrow> TimeStamp \<Rightarrow> TraceEvent" where
  "event_End key cat now =
     \<lparr>etype = End, ekey = key, ecategory = cat, etime = now, epayload = NoPayload\<rparr>"

definition event_Timespan ::
  "EventKey \<Rightarrow> TimeStamp \<Rightarrow> TraceCategoryId \<Rightarrow> TimeStamp \<Rightarrow> TraceEvent" where
  "event_Timespan key start cat now =
     \<lparr>etype = Timespan, ekey = key, ecategory = cat, etime = start, epayload = EndTime now\<rparr>"

definition event_CounterDelta ::
  "EventKey \<Rightarrow> double \<Rightarrow> TraceCategoryId \<Rightarrow> TimeStamp \<Rightarrow> TraceEvent" where
  "event_CounterDelta key x cat now =
     \<lparr>etype = CounterDelta, ekey = key, ecategory = cat, etime = now,
      epayload = CounterPayload x\<rparr>"

definition event_CounterValue ::
  "EventKey \<Rightarrow> double \<Rightarrow> TraceCategoryId \<Rightarrow> TimeStamp \<Rightarrow> TraceEvent" where
  "event_CounterValue key x cat now =
     \<lparr>etype = CounterValue, ekey = key, ecategory = cat, etime = now,
      epayload = CounterPayload x\<rparr>"

definition event_Data ::
  "EventKey \<Rightarrow> Payload \<Rightarrow> TraceCategoryId \<Rightarrow> TimeStamp \<Rightarrow> TraceEvent" where
  "event_Data key p cat now =
     \<lparr>etype = Data, ekey = key, ecategory = cat, etime = now, epayload = p\<rparr>"

text \<open>
  Modelled from the spec: \<open>TraceCollection::EventList\<close> (collection.h, eventList.h) is
  not among the sources. Sections 3 and 4.3 give an ordered, append-only sequence of
  events and an arena for large payloads, a bump allocator whose addresses stay valid for
  the life of the list. An arena address is the index of the block.
\<close>

datatype ArenaBlock = StringCopy string | ObjectCopy DataValue

record EventList =
  elems :: "TraceEvent list"
  arena :: "ArenaBlock list"

definition EventList_new :: EventList where
  "EventList_new = \<lparr>elems = [], arena = []\<rparr>"

definition EventList_IsEmpty :: "EventList \<Rightarrow> bool" where
  "EventList_IsEmpty l = (elems l = [])"

definition EventList_EmplaceBack :: "TraceEvent \<Rightarrow> EventList \<Rightarrow> EventList" where
  "EventList_EmplaceBack e l = l\<lparr>elems := elems l @ [e]\<rparr>"

text \<open>
  Modelled from the spec: \<open>EventList::StoreData\<close> copies the payload into the arena and
  returns the address of the copy. The argument of the C++ is either a \<open>const char*\<close>,
  of which the bytes of the C string are copied, or a larger object, which is copied as
  it is.
\<close>

datatype LargeData = CharPointer string | Object DataValue

fun copy_of :: "LargeData \<Rightarrow> ArenaBlock" where
  "copy_of (CharPointer m) = StringCopy (c_string m)"
| "copy_of (Object v) = ObjectCopy v"

definition EventList_StoreData :: "LargeData \<Rightarrow> EventList \<Rightarrow> nat \<times> EventList" where
  "EventList_StoreData x l = (length (arena l), l\<lparr>arena := arena l @ [copy_of x]\<rparr>)"

text \<open>Reading a payload back from a list: the block an arena pointer leads to.\<close>

definition read_arena :: "EventList \<Rightarrow> nat \<Rightarrow> ArenaBlock option" where
  "read_arena l a = (if a < length (arena l) then Some (arena l ! a) else None)"

definition payload_string :: "EventList \<Rightarrow> TraceEvent \<Rightarrow> string option" where
  "payload_string l e =
     (case epayload e of
        ArenaPointer a \<Rightarrow>
          (case read_arena l a of Some (StringCopy s) \<Rightarrow> Some s | _ \<Rightarrow> None)
      | _ \<Rightarrow> None)"

text \<open>
  Modelled from the spec: a \<open>Collection\<close> (collection.h) is the bundle of the harvested
  lists, each with the id of its thread (section 3).
\<close>

record Collection =
  lists :: "(TraceThreadId \<times> EventList) list"

subsection \<open>Steps of a call\<close>

datatype memory_order =
  memory_order_relaxed | memory_order_acquire | memory_order_release | memory_order_acq_rel

text \<open>
  The operations a call performs on the shared state, in program order: on the gate
  \<open>_isEnabled\<close>, on the flag \<open>_writing\<close> and the pointer \<open>_events\<close> of a slot, and
  on the event list the pointer leads to, on the list of slots and on the notice bus.
\<close>

datatype step =
    load_isEnabled memory_order
  | store_writing bool memory_order
  | load_writing memory_order
  | load_events memory_order
  | exchange_events memory_order
  | call_StoreData ArenaBlock
  | call_EmplaceBack TraceEvent
  | call_RewriteBack TraceEvent
  | insert_PerThreadData TraceThreadId
  | send_TraceCollectionAvailable Collection

subsection \<open>Per-thread data\<close>

text \<open>
  \<open>events\<close> is the list the atomic pointer \<open>_events\<close> leads to; \<open>writing\<close> is the
  atomic flag \<open>_writing\<close>.
\<close>

record PerThreadData =
  writing :: bool
  events :: EventList
  threadIndex :: TraceThreadId

type_synonym thread_op = "PerThreadData \<Rightarrow> step list \<times> PerThreadData"

text \<open>
  \<open>AtomicRef\<close>: the constructor stores true in the flag, the destructor stores false,
  both with release order. \<open>AtomicRef lock(_writing); body\<close> in a method runs the
  constructor, the body, and the destructor when the method returns.
\<close>

definition AtomicRef_ctor :: thread_op where
  "AtomicRef_ctor d = ([store_writing True memory_order_release], d\<lparr>writing := True\<rparr>)"

definition AtomicRef_dtor :: thread_op where
  "AtomicRef_dtor d = ([store_writing False memory_order_release], d\<lparr>writing := False\<rparr>)"

definition with_AtomicRef :: "thread_op \<Rightarrow> thread_op" where
  "with_AtomicRef body d =
     (let (t1, d1) = AtomicRef_ctor d;
          (t2, d2) = body d1;
          (t3, d3) = AtomicRef_dtor d2
      in (t1 @ t2 @ t3, d3))"

text \<open>\<open>_events.load(std::memory_order_acquire)->EmplaceBack(...)\<close>.\<close>

definition load_EmplaceBack :: "TraceEvent \<Rightarrow> thread_op" where
  "load_EmplaceBack e d =
     ([load_events memory_order_acquire, call_EmplaceBack e],
      d\<lparr>events := EventList_EmplaceBack e (events d)\<rparr>)"

definition ptd_priv_BeginScope :: "TraceKey \<Rightarrow> TraceCategoryId \<Rightarrow> TimeStamp \<Rightarrow> thread_op" where
  "ptd_priv_BeginScope key cat now = load_EmplaceBack (event_Begin (StaticKey key) cat now)"

definition ptd_BeginScope :: "TraceKey \<Rightarrow> TraceCategoryId \<Rightarrow> TimeStamp \<Rightarrow> thread_op" where
  "ptd_BeginScope key cat now = with_AtomicRef (ptd_priv_BeginScope key cat now)"

text \<open>
  Modelled from the spec: the body of \<open>_PerThreadData::_EndScope\<close> is in collector.cpp,
  which is not among the sources. Section 4.2: it looks at the preceding event and, if
  that is the \<open>Begin\<close> with the same key and category, rewrites it into one
  \<open>Timespan\<close>; otherwise it appends an \<open>End\<close>.
\<close>

definition matching_Begin :: "TraceKey \<Rightarrow> TraceCategoryId \<Rightarrow> TraceEvent \<Rightarrow> bool" where
  "matching_Begin key cat e =
     (etype e = Begin \<and> ekey e = StaticKey key \<and> ecategory e = cat)"

definition ptd_priv_EndScope :: "TraceKey \<Rightarrow> TraceCategoryId \<Rightarrow> TimeStamp \<Rightarrow> thread_op" where
  "ptd_priv_EndScope key cat now d =
     (let l = events d in
      if \<not> EventList_IsEmpty l \<and> matching_Begin key cat (last (elems l))
      then (let e = event_Timespan (StaticKey key) (etime (last (elems l))) cat now
            in ([load_events memory_order_acquire, call_RewriteBack e],
                d\<lparr>events := l\<lparr>elems := butlast (elems l) @ [e]\<rparr>\<rparr>))
      else load_EmplaceBack (event_End (StaticKey key) cat now) d)"

definition ptd_EndScope :: "TraceKey \<Rightarrow> TraceCategoryId \<Rightarrow> TimeStamp \<Rightarrow> thread_op" where
  "ptd_EndScope key cat now = with_AtomicRef (ptd_priv_EndScope key cat now)"

text \<open>
  \<open>StoreData\<close> appends a \<open>Data\<close> event that holds the value; \<open>StoreLargeData\<close>
  first copies the data into the arena of the list and appends a \<open>Data\<close> event that
  holds the pointer to the copy.
\<close>

definition ptd_StoreData ::
  "TraceKey \<Rightarrow> DataValue \<Rightarrow> TraceCategoryId \<Rightarrow> TimeStamp \<Rightarrow> thread_op" where
  "ptd_StoreData key data cat now =
     with_AtomicRef (load_EmplaceBack (event_Data (StaticKey key) (InlineData data) cat now))"

definition ptd_StoreLargeData ::
  "TraceKey \<Rightarrow> LargeData \<Rightarrow> TraceCategoryId \<Rightarrow> TimeStamp \<Rightarrow> thread_op" where
  "ptd_StoreLargeData key data cat now =
     with_AtomicRef (\<lambda>d.
       let (cached, l1) = EventList_StoreData data (events d);
           e = event_Data (StaticKey key) (ArenaPointer cached) cat now
       in ([load_events memory_order_acquire, call_StoreData (copy_of data),
            call_EmplaceBack e],
           d\<lparr>events := EventList_EmplaceBack e l1\<rparr>))"

definition ptd_EmplaceEvent :: "TraceEvent \<Rightarrow> thread_op" where
  "ptd_EmplaceEvent e = with_AtomicRef (load_EmplaceBack e)"

text \<open>
  Modelled from the spec: \<open>_PerThreadData::BeginEvent\<close>, \<open>EndEvent\<close>,
  \<open>CounterDelta\<close> and \<open>CounterValue\<close> are declared in collector.h and defined in
  collector.cpp, which is not among the sources. Sections 4.1 and 4.2: the dynamic-key
  variants stamp the time and append under the append protocol; the first two return the
  time stamp of the event.
\<close>

definition ptd_BeginEvent ::
  "Key \<Rightarrow> TraceCategoryId \<Rightarrow> TimeStamp \<Rightarrow> PerThreadData \<Rightarrow> step list \<times> TimeStamp \<times> PerThreadData"
  where
  "ptd_BeginEvent key cat now d =
     (let (t, d') = with_AtomicRef (load_EmplaceBack (event_Begin (DynamicKey key) cat now)) d
      in (t, now, d'))"

definition ptd_EndEvent ::
  "Key \<Rightarrow> TraceCategoryId \<Rightarrow> TimeStamp \<Rightarrow> PerThreadData \<Rightarrow> step list \<times> TimeStamp \<times> PerThreadData"
  where
  "ptd_EndEvent key cat now d =
     (let (t, d') = with_AtomicRef (load_EmplaceBack (event_End (DynamicKey key) cat now)) d
      in (t, now, d'))"

definition ptd_CounterDelta :: "Key \<Rightarrow> double \<Rightarrow> TraceCategoryId \<Rightarrow> TimeStamp \<Rightarrow> thread_op" where
  "ptd_CounterDelta key x cat now =
     with_AtomicRef (load_EmplaceBack (event_CounterDelta (DynamicKey key) x cat now))"

definition ptd_CounterValue :: "Key \<Rightarrow> double \<Rightarrow> TraceCategoryId \<Rightarrow> TimeStamp \<Rightarrow> thread_op" where
  "ptd_CounterValue key x cat now =
     with_AtomicRef (load_EmplaceBack (event_CounterValue (DynamicKey key) x cat now))"

text \<open>Running one slot operation after another.\<close>

definition then_op :: "thread_op \<Rightarrow> thread_op \<Rightarrow> thread_op" where
  "then_op f g d = (let (t1, d1) = f d; (t2, d2) = g d1 in (t1 @ t2, d2))"

text \<open>
  Modelled from the spec: \<open>_PerThreadData::GetCollectionData\<close> is defined in
  collector.cpp, which is not among the sources. Section 4.5, steps 1 to 3: a fresh empty
  list is swapped in with acquire-release order, then the harvester spins while the flag
  \<open>writing\<close> is true. No other thread runs in this sequential embedding, so the spin
  returns at once or never: a call that does not return is \<open>None\<close>.
\<close>

partial_function (option) spin_while_writing :: "PerThreadData \<Rightarrow> step list option" where
  "spin_while_writing d =
     (if writing d
      then Option.bind (spin_while_writing d)
             (\<lambda>t. Some (load_writing memory_order_acquire # t))
      else Some [load_writing memory_order_acquire])"

definition ptd_GetCollectionData ::
  "PerThreadData \<Rightarrow> (step list \<times> EventList \<times> PerThreadData) option" where
  "ptd_GetCollectionData d =
     (let old = events d; d1 = d\<lparr>events := EventList_new\<rparr>
      in case spin_while_writing d1 of
           None \<Rightarrow> None
         | Some t \<Rightarrow> Some (exchange_events memory_order_acq_rel # t, old, d1))"

subsection \<open>The collector\<close>

text \<open>
  \<open>isEnabled\<close> is the static \<open>std::atomic<int> _isEnabled\<close>; \<open>allPerThreadData\<close> is
  the list with one slot per thread, in the order of registration. A pointer to a slot is
  its position in the list, which never changes once the slot is registered.
\<close>

record TraceCollector =
  isEnabled :: int
  allPerThreadData :: "PerThreadData list"
  label :: string

type_synonym collector_op = "TraceCollector \<Rightarrow> step list \<times> TraceCollector"

definition IsEnabled :: "TraceCollector \<Rightarrow> step list \<times> bool" where
  "IsEnabled c = ([load_isEnabled memory_order_acquire], isEnabled c = 1)"

text \<open>
  \<open>if (!IsEnabled()) return; body\<close>, which collector.h also writes as
  \<open>if (IsEnabled()) { body }\<close>.
\<close>

definition if_enabled :: "collector_op \<Rightarrow> collector_op" where
  "if_enabled body c =
     (let (t0, enabled) = IsEnabled c
      in if \<not> enabled then (t0, c)
         else (let (t, c') = body c in (t0 @ t, c')))"

text \<open>
  Modelled from the spec: \<open>_GetThreadData\<close> is declared in collector.h (\<open>Return a
  pointer to existing per-thread data or create one if none exists\<close>) and defined in
  collector.cpp, which is not among the sources. Sections 3 and 9: the slot of a thread is
  created on its first call, with an empty list, and registered; it is never moved.
\<close>

fun slot_of :: "TraceThreadId \<Rightarrow> PerThreadData list \<Rightarrow> nat option" where
  "slot_of tid [] = None"
| "slot_of tid (d # ds) =
     (if threadIndex d = tid then Some 0 else map_option Suc (slot_of tid ds))"

definition PerThreadData_new :: "TraceThreadId \<Rightarrow> PerThreadData" where
  "PerThreadData_new tid = \<lparr>writing = False, events = EventList_new, threadIndex = tid\<rparr>"

definition priv_GetThreadData ::
  "TraceThreadId \<Rightarrow> TraceCollector \<Rightarrow> step list \<times> nat \<times> TraceCollector" where
  "priv_GetThreadData tid c =
     (case slot_of tid (allPerThreadData c) of
        Some p \<Rightarrow> ([], p, c)
      | None \<Rightarrow>
          ([insert_PerThreadData tid], length (allPerThreadData c),
           c\<lparr>allPerThreadData := allPerThreadData c @ [PerThreadData_new tid]\<rparr>))"

text \<open>\<open>threadData->f(...)\<close> for a slot pointer \<open>p\<close>.\<close>

definition at_slot :: "nat \<Rightarrow> thread_op \<Rightarrow> collector_op" where
  "at_slot p f c =
     (let (t, d) = f (allPerThreadData c ! p)
      in (t, c\<lparr>allPerThreadData := (allPerThreadData c)[p := d]\<rparr>))"

text \<open>\<open>_PerThreadData *threadData = _GetThreadData(); threadData->f(...)\<close>.\<close>

definition with_thread_data :: "TraceThreadId \<Rightarrow> thread_op \<Rightarrow> collector_op" where
  "with_thread_data tid f c =
     (let (t1, p, c1) = priv_GetThreadData tid c;
          (t2, c2) = at_slot p f c1
      in (t1 @ t2, c2))"

text \<open>
  Modelled from the spec: \<open>BeginEvent\<close> and \<open>EndEvent\<close> are declared in collector.h
  (\<open>returns the TimeStamp of the TraceEvent or 0 if the collector is disabled\<close>) and
  defined in collector.cpp, which is not among the sources. Section 4.1: they stamp the
  time, append, and return the time stamp, or 0 when the gate is off.
\<close>

definition BeginEvent ::
  "Key \<Rightarrow> TraceCategoryId \<Rightarrow> TraceThreadId \<Rightarrow> TimeStamp \<Rightarrow> TraceCollector
     \<Rightarrow> step list \<times> TimeStamp \<times> TraceCollector" where
  "BeginEvent key cat tid now c =
     (let (t0, enabled) = IsEnabled c
      in if \<not> enabled then (t0, 0, c)
         else (let (t1, p, c1) = priv_GetThreadData tid c;
                   (t2, stamp, d) = ptd_BeginEvent key cat now (allPerThreadData c1 ! p)
               in (t0 @ t1 @ t2, stamp,
                   c1\<lparr>allPerThreadData := (allPerThreadData c1)[p := d]\<rparr>)))"

definition EndEvent ::
  "Key \<Rightarrow> TraceCategoryId \<Rightarrow> TraceThreadId \<Rightarrow> TimeStamp \<Rightarrow> TraceCollector
     \<Rightarrow> step list \<times> TimeStamp \<times> TraceCollector" where
  "EndEvent key cat tid now c =
     (let (t0, enabled) = IsEnabled c
      in if \<not> enabled then (t0, 0, c)
         else (let (t1, p, c1) = priv_GetThreadData tid c;
                   (t2, stamp, d) = ptd_EndEvent key cat now (allPerThreadData c1 ! p)
               in (t0 @ t1 @ t2, stamp,
                   c1\<lparr>allPerThreadData := (allPerThreadData c1)[p := d]\<rparr>)))"

text \<open>The scope operations with a static key.\<close>

definition priv_BeginScope ::
  "TraceKey \<Rightarrow> TraceCategoryId \<Rightarrow> TraceThreadId \<Rightarrow> TimeStamp \<Rightarrow> collector_op" where
  "priv_BeginScope key cat tid now = with_thread_data tid (ptd_BeginScope key cat now)"

definition BeginScope ::
  "TraceKey \<Rightarrow> TraceCategoryId \<Rightarrow> TraceThreadId \<Rightarrow> TimeStamp \<Rightarrow> collector_op" where
  "BeginScope key cat tid now = if_enabled (priv_BeginScope key cat tid now)"

text \<open>
  Modelled from the spec: \<open>TraceCollector::_EndScope\<close> is declared in collector.h and
  defined in collector.cpp, which is not among the sources; as \<open>_BeginScope\<close> does, it
  hands the call to the slot of the calling thread.
\<close>

definition priv_EndScope ::
  "TraceKey \<Rightarrow> TraceCategoryId \<Rightarrow> TraceThreadId \<Rightarrow> TimeStamp \<Rightarrow> collector_op" where
  "priv_EndScope key cat tid now = with_thread_data tid (ptd_EndScope key cat now)"

definition EndScope ::
  "TraceKey \<Rightarrow> TraceCategoryId \<Rightarrow> TraceThreadId \<Rightarrow> TimeStamp \<Rightarrow> collector_op" where
  "EndScope key cat tid now = if_enabled (priv_EndScope key cat tid now)"

definition Scope ::
  "TraceKey \<Rightarrow> TimeStamp \<Rightarrow> TraceCategoryId \<Rightarrow> TraceThreadId \<Rightarrow> TimeStamp \<Rightarrow> collector_op"
  where
  "Scope key start cat tid now =
     if_enabled
       (with_thread_data tid (ptd_EmplaceEvent (event_Timespan (StaticKey key) start cat now)))"

text \<open>
  The four overloads of \<open>_StoreData\<close>. The two that are not templates take a
  \<open>const char*\<close> and a \<open>std::string\<close> and win the overload resolution for these
  types; the two templates are enabled for a type that is not a pointer, the first if
  \<open>sizeof(T) <= sizeof(uintptr_t)\<close>, the second otherwise.
\<close>

fun priv_StoreData ::
  "TraceKey \<Rightarrow> TraceCategoryId \<Rightarrow> DataValue \<Rightarrow> TimeStamp \<Rightarrow> thread_op" where
  "priv_StoreData key cat (CStringValue m) now =
     ptd_StoreLargeData key (CharPointer m) cat now"
| "priv_StoreData key cat (StdStringValue s) now =
     ptd_StoreLargeData key (CharPointer (c_str s)) cat now"
| "priv_StoreData key cat v now =
     (if sizeof v \<le> sizeof_uintptr_t \<and> \<not> is_pointer v
      then ptd_StoreData key v cat now
      else ptd_StoreLargeData key (Object v) cat now)"

definition StoreData ::
  "TraceKey \<Rightarrow> DataValue \<Rightarrow> TraceCategoryId \<Rightarrow> TraceThreadId \<Rightarrow> TimeStamp \<Rightarrow> collector_op"
  where
  "StoreData key v cat tid now =
     if_enabled (with_thread_data tid (priv_StoreData key cat v now))"

text \<open>
  The counters: the overloads with a static key are written out in collector.h; the
  overloads with a dynamic key call \<open>CounterDelta\<close> and \<open>CounterValue\<close> of the slot.
\<close>

definition RecordCounterDelta ::
  "TraceKey \<Rightarrow> double \<Rightarrow> TraceCategoryId \<Rightarrow> TraceThreadId \<Rightarrow> TimeStamp \<Rightarrow> collector_op"
  where
  "RecordCounterDelta key delta cat tid now =
     if_enabled
       (with_thread_data tid
          (ptd_EmplaceEvent (event_CounterDelta (StaticKey key) delta cat now)))"

definition RecordCounterDelta_Key ::
  "Key \<Rightarrow> double \<Rightarrow> TraceCategoryId \<Rightarrow> TraceThreadId \<Rightarrow> TimeStamp \<Rightarrow> collector_op" where
  "RecordCounterDelta_Key key delta cat tid now =
     if_enabled (with_thread_data tid (ptd_CounterDelta key delta cat now))"

definition RecordCounterValue ::
  "TraceKey \<Rightarrow> double \<Rightarrow> TraceCategoryId \<Rightarrow> TraceThreadId \<Rightarrow> TimeStamp \<Rightarrow> collector_op"
  where
  "RecordCounterValue key x cat tid now =
     if_enabled
       (with_thread_data tid
          (ptd_EmplaceEvent (event_CounterValue (StaticKey key) x cat now)))"

definition RecordCounterValue_Key ::
  "Key \<Rightarrow> double \<Rightarrow> TraceCategoryId \<Rightarrow> TraceThreadId \<Rightarrow> TimeStamp \<Rightarrow> collector_op" where
  "RecordCounterValue_Key key x cat tid now =
     if_enabled (with_thread_data tid (ptd_CounterValue key x cat now))"

subsection \<open>The variadic operations\<close>

text \<open>
  An argument pack is a list of arguments, each a key or a value. A call that the
  compiler rejects is an error value: the static assertion on the size of the pack, or
  the failure to find an overload of \<open>_StoreDataRec\<close> or \<open>_StoreData\<close> for the next
  arguments. Nothing runs then.
\<close>

datatype pack_arg = KeyArg TraceKey | ValueArg DataValue

datatype compile_error = static_assert_failed string | no_matching_function

text \<open>
  \<open>_StoreDataRec\<close>: the base case takes an empty pack and does nothing; the recursive
  case takes a key and a value, stores them and goes on with the rest of the pack.
\<close>

fun priv_StoreDataRec ::
  "TraceCategoryId \<Rightarrow> pack_arg list \<Rightarrow> TimeStamp \<Rightarrow> compile_error + thread_op" where
  "priv_StoreDataRec cat [] now = Inr (\<lambda>d. ([], d))"
| "priv_StoreDataRec cat (KeyArg key # ValueArg v # args) now =
     (case priv_StoreDataRec cat args now of
        Inl err \<Rightarrow> Inl err
      | Inr rest \<Rightarrow> Inr (then_op (priv_StoreData key cat v now) rest))"
| "priv_StoreDataRec cat args now = Inl no_matching_function"

definition pairs_message :: string where
  "pairs_message = ''Data arguments must come in pairs''"

definition TraceCategory_Default :: TraceCategoryId where
  "TraceCategory_Default = 0"

definition ScopeArgs_cat ::
  "TraceCategoryId \<Rightarrow> pack_arg list \<Rightarrow> TraceThreadId \<Rightarrow> TimeStamp
     \<Rightarrow> compile_error + collector_op" where
  "ScopeArgs_cat cat args tid now =
     (if length args mod 2 \<noteq> 0 then Inl (static_assert_failed pairs_message)
      else case priv_StoreDataRec cat args now of
             Inl err \<Rightarrow> Inl err
           | Inr rec \<Rightarrow> Inr (if_enabled (with_thread_data tid rec)))"

definition ScopeArgs ::
  "pack_arg list \<Rightarrow> TraceThreadId \<Rightarrow> TimeStamp \<Rightarrow> compile_error + collector_op" where
  "ScopeArgs args tid now =
     (if length args mod 2 \<noteq> 0 then Inl (static_assert_failed pairs_message)
      else ScopeArgs_cat TraceCategory_Default args tid now)"

definition BeginScope_cat_args ::
  "TraceKey \<Rightarrow> TraceCategoryId \<Rightarrow> pack_arg list \<Rightarrow> TraceThreadId \<Rightarrow> TimeStamp
     \<Rightarrow> compile_error + collector_op" where
  "BeginScope_cat_args key cat args tid now =
     (if length args mod 2 \<noteq> 0 then Inl (static_assert_failed pairs_message)
      else case priv_StoreDataRec cat args now of
             Inl err \<Rightarrow> Inl err
           | Inr rec \<Rightarrow>
               Inr (if_enabled (with_thread_data tid (then_op (ptd_BeginScope key cat now) rec))))"

definition BeginScope_args ::
  "TraceKey \<Rightarrow> pack_arg list \<Rightarrow> TraceThreadId \<Rightarrow> TimeStamp \<Rightarrow> compile_error + collector_op"
  where
  "BeginScope_args key args tid now =
     (if length args mod 2 \<noteq> 0 then Inl (static_assert_failed pairs_message)
      else BeginScope_cat_args key TraceCategory_Default args tid now)"

subsection \<open>The harvest\<close>

text \<open>
  Modelled from the spec: \<open>CreateCollection\<close> is declared in collector.h, as
  \<open>void CreateCollection()\<close> (\<open>Produces a TraceCollection from all the events that
  recorded in the collector and issues a TraceCollectionAvailable notice\<close>), and defined
  in collector.cpp, which is not among the sources. Section 4.5: every slot is harvested
  in turn, and the lists that are not empty go into the collection with the ids of their
  threads. The result is \<open>None\<close> when a spin does not end; otherwise it holds the steps,
  the value returned to the caller, which is \<open>()\<close> for a \<open>void\<close> function, and the
  new state.
\<close>

fun harvest ::
  "PerThreadData list
     \<Rightarrow> (step list \<times> (TraceThreadId \<times> EventList) list \<times> PerThreadData list) option" where
  "harvest [] = Some ([], [], [])"
| "harvest (d # ds) =
     (case ptd_GetCollectionData d of
        None \<Rightarrow> None
      | Some (t, old, d') \<Rightarrow>
          (case harvest ds of
             None \<Rightarrow> None
           | Some (ts, col, ds') \<Rightarrow>
               Some (t @ ts,
                     (if EventList_IsEmpty old then col else (threadIndex d, old) # col),
                     d' # ds')))"

definition CreateCollection ::
  "TraceCollector \<Rightarrow> (step list \<times> unit \<times> TraceCollector) option" where
  "CreateCollection c =
     (case harvest (allPerThreadData c) of
        None \<Rightarrow> None
      | Some (t, col, ds) \<Rightarrow>
          Some (t @ [send_TraceCollectionAvailable \<lparr>lists = col\<rparr>], (),
                c\<lparr>allPerThreadData := ds\<rparr>))"

subsection \<open>Notions used in the statements\<close>

text \<open>
  The steps of one append to a slot: the flag is set with release order, the pointer to
  the list is loaded with acquire order, the list is written (a large payload goes to the
  arena first), and the flag is cleared with release order.
\<close>

fun appends_one :: "step list \<Rightarrow> bool" where
  "appends_one [call_EmplaceBack e] = True"
| "appends_one [call_StoreData b, call_EmplaceBack e] = True"
| "appends_one [call_RewriteBack e] = True"
| "appends_one t = False"

definition append_protocol :: "step list \<Rightarrow> bool" where
  "append_protocol t =
     (case t of
        s1 # s2 # rest \<Rightarrow>
          s1 = store_writing True memory_order_release \<and>
          s2 = load_events memory_order_acquire \<and>
          rest \<noteq> [] \<and>
          last rest = store_writing False memory_order_release \<and>
          appends_one (butlast rest)
      | _ \<Rightarrow> False)"

definition follows_protocol :: "thread_op \<Rightarrow> PerThreadData \<Rightarrow> bool" where
  "follows_protocol f d = (append_protocol (fst (f d)) \<and> \<not> writing (snd (f d)))"

definition steps_and_state ::
  "step list \<times> 'a \<times> PerThreadData \<Rightarrow> step list \<times> PerThreadData" where
  "steps_and_state r = (fst r, snd (snd r))"

text \<open>
  The slot \<open>_GetThreadData\<close> gives a thread: its registered slot, or a new one; and the
  events recorded for the thread so far.
\<close>

definition thread_data :: "TraceThreadId \<Rightarrow> TraceCollector \<Rightarrow> PerThreadData" where
  "thread_data tid c =
     (case slot_of tid (allPerThreadData c) of
        None \<Rightarrow> PerThreadData_new tid
      | Some p \<Rightarrow> allPerThreadData c ! p)"

definition thread_events :: "TraceThreadId \<Rightarrow> TraceCollector \<Rightarrow> TraceEvent list" where
  "thread_events tid c = elems (events (thread_data tid c))"

definition preserves_threadIndex :: "thread_op \<Rightarrow> bool" where
  "preserves_threadIndex f = (\<forall>d. threadIndex (snd (f d)) = threadIndex d)"

text \<open>The steps of an append that writes \<open>body\<close> to the list.\<close>

definition protocol_steps :: "step list \<Rightarrow> step list" where
  "protocol_steps body =
     store_writing True memory_order_release # load_events memory_order_acquire # body
       @ [store_writing False memory_order_release]"




text \<open>
  The calls a thread can make on its slot; each of them appends to the list of the slot,
  which grows. \<open>Thread_calls tid x\<close> is the public operation: the gate is tested and
  the call \<open>x\<close> goes to the slot of thread \<open>tid\<close>.
\<close>

datatype slot_call =
    Call_BeginScope TraceKey TraceCategoryId TimeStamp
  | Call_EndScope TraceKey TraceCategoryId TimeStamp
  | Call_StoreData TraceKey TraceCategoryId DataValue TimeStamp
  | Call_EmplaceEvent TraceEvent
  | Call_BeginEvent Key TraceCategoryId TimeStamp
  | Call_EndEvent Key TraceCategoryId TimeStamp
  | Call_CounterDelta Key double TraceCategoryId TimeStamp
  | Call_CounterValue Key double TraceCategoryId TimeStamp

fun run_call :: "slot_call \<Rightarrow> thread_op" where
  "run_call (Call_BeginScope key cat now) = ptd_BeginScope key cat now"
| "run_call (Call_EndScope key cat now) = ptd_EndScope key cat now"
| "run_call (Call_StoreData key cat v now) = priv_StoreData key cat v now"
| "run_call (Call_EmplaceEvent e) = ptd_EmplaceEvent e"
| "run_call (Call_BeginEvent dkey cat now) = (\<lambda>d. steps_and_state (ptd_BeginEvent dkey cat now d))"
| "run_call (Call_EndEvent dkey cat now) = (\<lambda>d. steps_and_state (ptd_EndEvent dkey cat now d))"
| "run_call (Call_CounterDelta dkey x cat now) = ptd_CounterDelta dkey x cat now"
| "run_call (Call_CounterValue dkey x cat now) = ptd_CounterValue dkey x cat now"

datatype api_call = Thread_calls TraceThreadId slot_call

fun run_api :: "api_call \<Rightarrow> TraceCollector \<Rightarrow> TraceCollector" where
  "run_api (Thread_calls tid x) c = snd (if_enabled (with_thread_data tid (run_call x)) c)"

fun run_apis :: "api_call list \<Rightarrow> TraceCollector \<Rightarrow> TraceCollector" where
  "run_apis [] c = c"
| "run_apis (a # as) c = run_apis as (run_api a c)"

text \<open>The collector after \<open>StoreData\<close> and any later calls of any threads.\<close>

definition after_StoreData ::
  "TraceKey \<Rightarrow> DataValue \<Rightarrow> TraceCategoryId \<Rightarrow> TraceThreadId \<Rightarrow> TimeStamp \<Rightarrow> api_call list
     \<Rightarrow> TraceCollector \<Rightarrow> TraceCollector" where
  "after_StoreData key v cat tid now calls c = run_apis calls (snd (StoreData key v cat tid now c))"

text \<open>
  The event at position \<open>n\<close> of a list is a \<open>Data\<close> event whose payload leads to the
  string \<open>s\<close> in the arena of the list.
\<close>

definition holds_string :: "nat \<Rightarrow> string \<Rightarrow> EventList \<Rightarrow> bool" where
  "holds_string n s l =
     (n < length (elems l) \<and> etype (elems l ! n) = Data \<and> payload_string l (elems l ! n) = Some s)"

text \<open>
  The outcome of a harvest when no slot is inside an append: the steps, the collection,
  and the slots with their fresh lists.
\<close>

definition harvest_steps :: "PerThreadData list \<Rightarrow> step list" where
  "harvest_steps ds =
     concat (map (\<lambda>d. [exchange_events memory_order_acq_rel, load_writing memory_order_acquire]) ds)"

definition collected :: "PerThreadData list \<Rightarrow> (TraceThreadId \<times> EventList) list" where
  "collected ds =
     map (\<lambda>d. (threadIndex d, events d)) (filter (\<lambda>d. \<not> EventList_IsEmpty (events d)) ds)"

definition restarted :: "PerThreadData list \<Rightarrow> PerThreadData list" where
  "restarted ds = map (\<lambda>d. d\<lparr>events := EventList_new\<rparr>) ds"

definition all_idle :: "PerThreadData list \<Rightarrow> bool" where
  "all_idle ds = list_all (\<lambda>d. \<not> writing d) ds"

text \<open>
  The harvest of \<open>c\<close> sends a collection in which the list of thread \<open>tid\<close> holds
  at position \<open>n\<close> a \<open>Data\<close> event with the string \<open>s\<close>.
\<close>

definition harvested_with_string ::
  "TraceCollector \<Rightarrow> TraceThreadId \<Rightarrow> nat \<Rightarrow> string \<Rightarrow> bool" where
  "harvested_with_string c tid n s =
     (let ds = allPerThreadData c; l = events (thread_data tid c)
      in CreateCollection c =
           Some (harvest_steps ds @ [send_TraceCollectionAvailable \<lparr>lists = collected ds\<rparr>],
                 (),
                 c\<lparr>allPerThreadData := restarted ds\<rparr>) \<and>
         (tid, l) \<in> set (collected ds) \<and>
         holds_string n s l)"

text \<open>Collectors used as concrete inputs.\<close>

definition collector_off :: TraceCollector where
  "collector_off = \<lparr>isEnabled = 0, allPerThreadData = [], label = ''trace''\<rparr>"

definition collector_on :: TraceCollector where
  "collector_on = \<lparr>isEnabled = 1, allPerThreadData = [], label = ''trace''\<rparr>"

definition collector_two_threads :: TraceCollector where
  "collector_two_threads =
     \<lparr>isEnabled = 1,
      allPerThreadData =
        [\<lparr>writing = False,
          events = \<lparr>elems = [event_Begin (StaticKey 7) 0 10], arena = []\<rparr>,
          threadIndex = 1\<rparr>,
         \<lparr>writing = False, events = EventList_new, threadIndex = 2\<rparr>],
      label = ''trace''\<rparr>"

section \<open>Properties\<close>

subsection \<open>The gate and the slots\<close>

lemma if_enabled_off:
  "isEnabled c \<noteq> 1 \<Longrightarrow> if_enabled body c = ([load_isEnabled memory_order_acquire], c)"
  by (simp add: if_enabled_def IsEnabled_def)

lemma if_enabled_on:
  "isEnabled c = 1 \<Longrightarrow>
   if_enabled body c = (load_isEnabled memory_order_acquire # fst (body c), snd (body c))"
  by (simp add: if_enabled_def IsEnabled_def case_prod_beta)

lemma slot_of_Some:
  "slot_of tid ds = Some p \<Longrightarrow> p < length ds \<and> threadIndex (ds ! p) = tid"
  by (induction ds arbitrary: p) (auto split: if_splits)

lemma slot_of_update:
  "slot_of tid ds = Some p \<Longrightarrow> threadIndex d' = tid \<Longrightarrow> slot_of tid (ds[p := d']) = Some p"
  by (induction ds arbitrary: p) (auto split: if_splits)

lemma slot_of_update_other:
  "slot_of tid ds = Some p \<Longrightarrow> threadIndex d' = tid \<Longrightarrow> tid' \<noteq> tid \<Longrightarrow>
   slot_of tid' (ds[p := d']) = slot_of tid' ds"
  by (induction ds arbitrary: p) (auto split: if_splits)

lemma slot_of_append:
  "slot_of tid (ds @ [n]) =
     (case slot_of tid ds of
        Some p \<Rightarrow> Some p
      | None \<Rightarrow> if threadIndex n = tid then Some (length ds) else None)"
  by (induction ds) (auto split: option.splits)

lemma with_thread_data_eq:
  "with_thread_data tid f c =
     (case slot_of tid (allPerThreadData c) of
        Some p \<Rightarrow>
          (fst (f (allPerThreadData c ! p)),
           c\<lparr>allPerThreadData := (allPerThreadData c)[p := snd (f (allPerThreadData c ! p))]\<rparr>)
      | None \<Rightarrow>
          (insert_PerThreadData tid # fst (f (PerThreadData_new tid)),
           c\<lparr>allPerThreadData := allPerThreadData c @ [snd (f (PerThreadData_new tid))]\<rparr>))"
  by (simp add: with_thread_data_def priv_GetThreadData_def at_slot_def case_prod_beta
      split: option.split)

lemma thread_data_with_thread_data:
  assumes "preserves_threadIndex f"
  shows "thread_data tid (snd (with_thread_data tid f c)) = snd (f (thread_data tid c))"
proof (cases "slot_of tid (allPerThreadData c)")
  case None
  have "threadIndex (snd (f (PerThreadData_new tid))) = tid"
    using assms by (simp add: preserves_threadIndex_def PerThreadData_new_def)
  then show ?thesis
    using None by (simp add: with_thread_data_eq thread_data_def slot_of_append)
next
  case (Some p)
  then have p: "p < length (allPerThreadData c)" "threadIndex (allPerThreadData c ! p) = tid"
    using slot_of_Some by blast+
  then have "threadIndex (snd (f (allPerThreadData c ! p))) = tid"
    using assms by (simp add: preserves_threadIndex_def)
  then show ?thesis
    using Some p by (simp add: with_thread_data_eq thread_data_def slot_of_update)
qed

lemma thread_data_other:
  assumes "preserves_threadIndex f" and "tid' \<noteq> tid"
  shows "thread_data tid' (snd (with_thread_data tid f c)) = thread_data tid' c"
proof (cases "slot_of tid (allPerThreadData c)")
  case None
  have "threadIndex (snd (f (PerThreadData_new tid))) = tid"
    using assms by (simp add: preserves_threadIndex_def PerThreadData_new_def)
  then show ?thesis
    using None assms(2)
    by (auto simp add: with_thread_data_eq thread_data_def slot_of_append nth_append
        dest: slot_of_Some split: option.splits)
next
  case (Some p)
  then have p: "p < length (allPerThreadData c)" "threadIndex (allPerThreadData c ! p) = tid"
    using slot_of_Some by blast+
  then have t: "threadIndex (snd (f (allPerThreadData c ! p))) = tid"
    using assms by (simp add: preserves_threadIndex_def)
  have "slot_of tid' ((allPerThreadData c)[p := snd (f (allPerThreadData c ! p))])
        = slot_of tid' (allPerThreadData c)"
    using Some t assms(2) by (rule slot_of_update_other)
  moreover have "\<And>q. slot_of tid' (allPerThreadData c) = Some q \<Longrightarrow> q \<noteq> p"
    using p assms(2) slot_of_Some by blast
  ultimately show ?thesis
    using Some by (auto simp add: with_thread_data_eq thread_data_def split: option.splits)
qed

lemma with_AtomicRef_steps:
  "with_AtomicRef body d =
     (store_writing True memory_order_release # fst (body (d\<lparr>writing := True\<rparr>))
        @ [store_writing False memory_order_release],
      (snd (body (d\<lparr>writing := True\<rparr>)))\<lparr>writing := False\<rparr>)"
  by (simp add: with_AtomicRef_def AtomicRef_ctor_def AtomicRef_dtor_def split: prod.split)

lemma preserves_with_AtomicRef:
  "preserves_threadIndex body \<Longrightarrow> preserves_threadIndex (with_AtomicRef body)"
  by (simp add: preserves_threadIndex_def with_AtomicRef_steps)

lemma preserves_load_EmplaceBack: "preserves_threadIndex (load_EmplaceBack e)"
  by (simp add: preserves_threadIndex_def load_EmplaceBack_def)

lemma preserves_EmplaceEvent: "preserves_threadIndex (ptd_EmplaceEvent e)"
  by (simp add: ptd_EmplaceEvent_def preserves_with_AtomicRef preserves_load_EmplaceBack)

lemma preserves_BeginScope: "preserves_threadIndex (ptd_BeginScope key cat now)"
  by (simp add: ptd_BeginScope_def ptd_priv_BeginScope_def preserves_with_AtomicRef
      preserves_load_EmplaceBack)

lemma preserves_EndScope: "preserves_threadIndex (ptd_EndScope key cat now)"
  unfolding ptd_EndScope_def
  by (rule preserves_with_AtomicRef)
    (simp add: preserves_threadIndex_def ptd_priv_EndScope_def load_EmplaceBack_def Let_def)

lemma preserves_CounterDelta: "preserves_threadIndex (ptd_CounterDelta dkey x cat now)"
  by (simp add: ptd_CounterDelta_def preserves_with_AtomicRef preserves_load_EmplaceBack)

lemma preserves_CounterValue: "preserves_threadIndex (ptd_CounterValue dkey x cat now)"
  by (simp add: ptd_CounterValue_def preserves_with_AtomicRef preserves_load_EmplaceBack)

lemma enabled_after: "isEnabled (snd (if_enabled (with_thread_data tid f) c)) = isEnabled c"
  by (simp add: if_enabled_def IsEnabled_def with_thread_data_eq case_prod_beta
      split: option.split)

lemma thread_data_enabled:
  assumes "isEnabled c = 1" and "preserves_threadIndex f"
  shows "thread_data tid (snd (if_enabled (with_thread_data tid f) c)) = snd (f (thread_data tid c))"
  using assms by (simp add: if_enabled_on thread_data_with_thread_data)

subsection \<open>The append protocol\<close>

lemma follows_EmplaceBack: "follows_protocol (with_AtomicRef (load_EmplaceBack e)) d"
  by (simp add: follows_protocol_def with_AtomicRef_steps load_EmplaceBack_def append_protocol_def)

lemma follows_BeginScope: "follows_protocol (ptd_BeginScope key cat now) d"
  by (simp add: ptd_BeginScope_def ptd_priv_BeginScope_def follows_EmplaceBack)

lemma follows_EndScope: "follows_protocol (ptd_EndScope key cat now) d"
  by (simp add: ptd_EndScope_def ptd_priv_EndScope_def follows_protocol_def with_AtomicRef_steps
      load_EmplaceBack_def append_protocol_def Let_def)

lemma follows_StoreData: "follows_protocol (ptd_StoreData key v cat now) d"
  by (simp add: ptd_StoreData_def follows_EmplaceBack)

lemma follows_StoreLargeData: "follows_protocol (ptd_StoreLargeData key x cat now) d"
  by (simp add: ptd_StoreLargeData_def follows_protocol_def with_AtomicRef_steps
      append_protocol_def EventList_StoreData_def Let_def)

lemma follows_EmplaceEvent: "follows_protocol (ptd_EmplaceEvent e) d"
  by (simp add: ptd_EmplaceEvent_def follows_EmplaceBack)

lemma follows_CounterDelta: "follows_protocol (ptd_CounterDelta dkey r cat now) d"
  by (simp add: ptd_CounterDelta_def follows_EmplaceBack)

lemma follows_CounterValue: "follows_protocol (ptd_CounterValue dkey r cat now) d"
  by (simp add: ptd_CounterValue_def follows_EmplaceBack)

lemma follows_BeginEvent:
  "follows_protocol (\<lambda>d. steps_and_state (ptd_BeginEvent dkey cat now d)) d"
  using follows_EmplaceBack [of "event_Begin (DynamicKey dkey) cat now" d]
  by (simp add: follows_protocol_def steps_and_state_def ptd_BeginEvent_def case_prod_beta)

lemma follows_EndEvent:
  "follows_protocol (\<lambda>d. steps_and_state (ptd_EndEvent dkey cat now d)) d"
  using follows_EmplaceBack [of "event_End (DynamicKey dkey) cat now" d]
  by (simp add: follows_protocol_def steps_and_state_def ptd_EndEvent_def case_prod_beta)

lemma EmplaceEvent_full:
  "ptd_EmplaceEvent e d =
     (protocol_steps [call_EmplaceBack e],
      d\<lparr>writing := False, events := (events d)\<lparr>elems := elems (events d) @ [e]\<rparr>\<rparr>)"
  by (simp add: ptd_EmplaceEvent_def with_AtomicRef_steps load_EmplaceBack_def
      protocol_steps_def EventList_EmplaceBack_def)

lemma BeginScope_full:
  "ptd_BeginScope key cat now d =
     (protocol_steps [call_EmplaceBack (event_Begin (StaticKey key) cat now)],
      d\<lparr>writing := False,
        events := (events d)\<lparr>elems := elems (events d)
                                @ [event_Begin (StaticKey key) cat now]\<rparr>\<rparr>)"
  by (simp add: ptd_BeginScope_def ptd_priv_BeginScope_def with_AtomicRef_steps
      load_EmplaceBack_def protocol_steps_def EventList_EmplaceBack_def)

lemma EndScope_full:
  "ptd_EndScope key cat now d =
     (if elems (events d) \<noteq> [] \<and> matching_Begin key cat (last (elems (events d)))
      then (protocol_steps
              [call_RewriteBack
                 (event_Timespan (StaticKey key) (etime (last (elems (events d)))) cat now)],
            d\<lparr>writing := False,
              events := (events d)\<lparr>elems := butlast (elems (events d))
                @ [event_Timespan (StaticKey key) (etime (last (elems (events d)))) cat
                     now]\<rparr>\<rparr>)
      else (protocol_steps [call_EmplaceBack (event_End (StaticKey key) cat now)],
            d\<lparr>writing := False,
              events := (events d)\<lparr>elems := elems (events d)
                                      @ [event_End (StaticKey key) cat now]\<rparr>\<rparr>))"
  by (simp add: ptd_EndScope_def ptd_priv_EndScope_def with_AtomicRef_steps
      load_EmplaceBack_def protocol_steps_def EventList_EmplaceBack_def EventList_IsEmpty_def
      Let_def)

lemma StoreData_full:
  "ptd_StoreData key v cat now d =
     (protocol_steps [call_EmplaceBack (event_Data (StaticKey key) (InlineData v) cat now)],
      d\<lparr>writing := False,
        events := (events d)\<lparr>elems := elems (events d)
                                @ [event_Data (StaticKey key) (InlineData v) cat now]\<rparr>\<rparr>)"
  by (simp add: ptd_StoreData_def with_AtomicRef_steps load_EmplaceBack_def
      protocol_steps_def EventList_EmplaceBack_def)

lemma StoreLargeData_full:
  "ptd_StoreLargeData key x cat now d =
     (protocol_steps
        [call_StoreData (copy_of x),
         call_EmplaceBack
           (event_Data (StaticKey key) (ArenaPointer (length (arena (events d)))) cat now)],
      d\<lparr>writing := False,
        events := (events d)
          \<lparr>elems := elems (events d)
             @ [event_Data (StaticKey key) (ArenaPointer (length (arena (events d)))) cat now],
           arena := arena (events d) @ [copy_of x]\<rparr>\<rparr>)"
  by (simp add: ptd_StoreLargeData_def with_AtomicRef_steps EventList_StoreData_def
      protocol_steps_def EventList_EmplaceBack_def Let_def)

lemma AtomicRef_flag:
  "AtomicRef_ctor d = ([store_writing True memory_order_release], d\<lparr>writing := True\<rparr>) \<and>
   writing (snd (AtomicRef_ctor d)) \<and>
   AtomicRef_dtor d = ([store_writing False memory_order_release], d\<lparr>writing := False\<rparr>) \<and>
   \<not> writing (snd (AtomicRef_dtor d))"
  by (simp add: AtomicRef_ctor_def AtomicRef_dtor_def)

text \<open>
  Claim C3. Every append operation on a slot performs, in this order: the store of true
  to the flag \<open>writing\<close> with release order, the load of the pointer to the event list
  with acquire order, the write to that list, and the store of false to the flag with
  release order; when it returns the flag is false and the event is in the list. The
  constructor of \<open>AtomicRef\<close> leaves the flag true, so the body of each operation runs
  with the flag set, and the destructor leaves it false. Each operation written out in
  collector.h is given by its steps and by the slot it returns: \<open>BeginScope\<close>,
  \<open>StoreData\<close>, \<open>StoreLargeData\<close>, \<open>EmplaceEvent\<close>, and \<open>EndScope\<close>, whose
  \<open>AtomicRef\<close> is there and whose inner \<open>_EndScope\<close> follows the specification.
\<close>

theorem append_protocol_holds:
  "(AtomicRef_ctor d = ([store_writing True memory_order_release], d\<lparr>writing := True\<rparr>) \<and>
    writing (snd (AtomicRef_ctor d)) \<and>
    AtomicRef_dtor d = ([store_writing False memory_order_release], d\<lparr>writing := False\<rparr>) \<and>
    \<not> writing (snd (AtomicRef_dtor d))) \<and>
   with_AtomicRef body d =
     (store_writing True memory_order_release # fst (body (d\<lparr>writing := True\<rparr>))
        @ [store_writing False memory_order_release],
      (snd (body (d\<lparr>writing := True\<rparr>)))\<lparr>writing := False\<rparr>) \<and>
   ptd_BeginScope key cat now d =
     (protocol_steps [call_EmplaceBack (event_Begin (StaticKey key) cat now)],
      d\<lparr>writing := False,
        events := (events d)\<lparr>elems := elems (events d)
                                @ [event_Begin (StaticKey key) cat now]\<rparr>\<rparr>) \<and>
   ptd_EndScope key cat now d =
     (if elems (events d) \<noteq> [] \<and> matching_Begin key cat (last (elems (events d)))
      then (protocol_steps
              [call_RewriteBack
                 (event_Timespan (StaticKey key) (etime (last (elems (events d)))) cat now)],
            d\<lparr>writing := False,
              events := (events d)\<lparr>elems := butlast (elems (events d))
                @ [event_Timespan (StaticKey key) (etime (last (elems (events d)))) cat
                     now]\<rparr>\<rparr>)
      else (protocol_steps [call_EmplaceBack (event_End (StaticKey key) cat now)],
            d\<lparr>writing := False,
              events := (events d)\<lparr>elems := elems (events d)
                                      @ [event_End (StaticKey key) cat now]\<rparr>\<rparr>)) \<and>
   ptd_StoreData key v cat now d =
     (protocol_steps [call_EmplaceBack (event_Data (StaticKey key) (InlineData v) cat now)],
      d\<lparr>writing := False,
        events := (events d)\<lparr>elems := elems (events d)
                                @ [event_Data (StaticKey key) (InlineData v) cat now]\<rparr>\<rparr>) \<and>
   ptd_StoreLargeData key x cat now d =
     (protocol_steps
        [call_StoreData (copy_of x),
         call_EmplaceBack
           (event_Data (StaticKey key) (ArenaPointer (length (arena (events d)))) cat now)],
      d\<lparr>writing := False,
        events := (events d)
          \<lparr>elems := elems (events d)
             @ [event_Data (StaticKey key) (ArenaPointer (length (arena (events d)))) cat now],
           arena := arena (events d) @ [copy_of x]\<rparr>\<rparr>) \<and>
   ptd_EmplaceEvent e d =
     (protocol_steps [call_EmplaceBack e],
      d\<lparr>writing := False, events := (events d)\<lparr>elems := elems (events d) @ [e]\<rparr>\<rparr>) \<and>
   protocol_steps steps =
     store_writing True memory_order_release # load_events memory_order_acquire # steps
       @ [store_writing False memory_order_release] \<and>
   (follows_protocol (ptd_BeginScope key cat now) d \<and>
    follows_protocol (ptd_EndScope key cat now) d \<and>
    follows_protocol (ptd_StoreData key v cat now) d \<and>
    follows_protocol (ptd_StoreLargeData key x cat now) d \<and>
    follows_protocol (ptd_EmplaceEvent e) d)"
  by (intro conjI AtomicRef_flag with_AtomicRef_steps BeginScope_full EndScope_full
      StoreData_full StoreLargeData_full EmplaceEvent_full protocol_steps_def
      follows_BeginScope follows_EndScope follows_StoreData follows_StoreLargeData
      follows_EmplaceEvent)

text \<open>
  The operations of a slot that are defined in collector.cpp are modelled with the same
  protocol, as the specification has it.
\<close>

lemma append_protocol_of_modelled_operations:
  "follows_protocol (ptd_CounterDelta dkey r cat now) d \<and>
   follows_protocol (ptd_CounterValue dkey r cat now) d \<and>
   follows_protocol (\<lambda>d. steps_and_state (ptd_BeginEvent dkey cat now d)) d \<and>
   follows_protocol (\<lambda>d. steps_and_state (ptd_EndEvent dkey cat now d)) d"
  by (intro conjI follows_CounterDelta follows_CounterValue follows_BeginEvent follows_EndEvent)

subsection \<open>The gate\<close>

text \<open>
  Claim C4. \<open>IsEnabled\<close> performs one load of the gate, with acquire order, and returns
  true exactly when the value loaded is 1; of the two values the gate holds, 1 gives true
  and 0 gives false.
\<close>

theorem IsEnabled_acquire_load:
  "fst (IsEnabled c) = [load_isEnabled memory_order_acquire] \<and>
   snd (IsEnabled c) = (isEnabled c = 1) \<and>
   snd (IsEnabled (c\<lparr>isEnabled := 1\<rparr>)) \<and>
   \<not> snd (IsEnabled (c\<lparr>isEnabled := 0\<rparr>))"
  by (simp add: IsEnabled_def)

text \<open>
  Claim C2. When the gate is off, each record operation does one thing only, the acquire
  load of the gate: it returns the collector as it was, so no slot is created or changed,
  nothing is appended and nothing is copied to an arena; \<open>BeginEvent\<close> and
  \<open>EndEvent\<close> return the time stamp 0.
\<close>

theorem gate_off_no_effect:
  assumes "isEnabled c \<noteq> 1"
  shows "BeginEvent dkey cat tid now c = ([load_isEnabled memory_order_acquire], 0, c) \<and>
         EndEvent dkey cat tid now c = ([load_isEnabled memory_order_acquire], 0, c) \<and>
         BeginScope key cat tid now c = ([load_isEnabled memory_order_acquire], c) \<and>
         EndScope key cat tid now c = ([load_isEnabled memory_order_acquire], c) \<and>
         Scope key start cat tid now c = ([load_isEnabled memory_order_acquire], c) \<and>
         StoreData key v cat tid now c = ([load_isEnabled memory_order_acquire], c) \<and>
         RecordCounterDelta key x cat tid now c = ([load_isEnabled memory_order_acquire], c) \<and>
         RecordCounterDelta_Key dkey x cat tid now c = ([load_isEnabled memory_order_acquire], c) \<and>
         RecordCounterValue key x cat tid now c = ([load_isEnabled memory_order_acquire], c) \<and>
         RecordCounterValue_Key dkey x cat tid now c = ([load_isEnabled memory_order_acquire], c)"
  using assms
  by (simp add: BeginEvent_def EndEvent_def IsEnabled_def BeginScope_def EndScope_def Scope_def
      StoreData_def RecordCounterDelta_def RecordCounterDelta_Key_def RecordCounterValue_def
      RecordCounterValue_Key_def if_enabled_off)

theorem gate_off_witness:
  "isEnabled collector_off \<noteq> 1 \<and>
   BeginEvent ''a'' 0 2 5 collector_off
     = ([load_isEnabled memory_order_acquire], 0, collector_off) \<and>
   EndEvent ''a'' 0 2 5 collector_off
     = ([load_isEnabled memory_order_acquire], 0, collector_off) \<and>
   StoreData 3 (StdStringValue ''hello'') 0 2 5 collector_off
     = ([load_isEnabled memory_order_acquire], collector_off)"
proof -
  have off: "isEnabled collector_off \<noteq> 1"
    by (simp add: collector_off_def)
  show ?thesis
    using off
      gate_off_no_effect
        [OF off, where dkey = "''a''" and cat = 0 and tid = 2 and now = 5 and key = 3
          and v = "StdStringValue ''hello''"]
    by simp
qed

text \<open>The same holds of the variadic operations, for the packs the compiler accepts.\<close>

lemma gate_off_variadic:
  assumes "isEnabled c \<noteq> 1"
  shows "ScopeArgs_cat cat args tid now = Inr f \<Longrightarrow> f c = ([load_isEnabled memory_order_acquire], c)"
    and "ScopeArgs args tid now = Inr f \<Longrightarrow> f c = ([load_isEnabled memory_order_acquire], c)"
    and "BeginScope_cat_args key cat args tid now = Inr f \<Longrightarrow> f c = ([load_isEnabled memory_order_acquire], c)"
    and "BeginScope_args key args tid now = Inr f \<Longrightarrow> f c = ([load_isEnabled memory_order_acquire], c)"
  using assms
  by (auto simp add: ScopeArgs_cat_def ScopeArgs_def BeginScope_cat_args_def BeginScope_args_def
      if_enabled_off split: if_splits sum.splits)

subsection \<open>The events appended\<close>

lemma elems_EmplaceEvent:
  "elems (events (snd (ptd_EmplaceEvent e d))) = elems (events d) @ [e]"
  by (simp add: ptd_EmplaceEvent_def with_AtomicRef_steps load_EmplaceBack_def
      EventList_EmplaceBack_def)

lemma elems_BeginScope:
  "elems (events (snd (ptd_BeginScope key cat now d)))
     = elems (events d) @ [event_Begin (StaticKey key) cat now]"
  by (simp add: ptd_BeginScope_def ptd_priv_BeginScope_def with_AtomicRef_steps
      load_EmplaceBack_def EventList_EmplaceBack_def)

lemma elems_EndScope:
  "elems (events (snd (ptd_EndScope key cat now d))) =
     (if elems (events d) \<noteq> [] \<and> matching_Begin key cat (last (elems (events d)))
      then butlast (elems (events d))
             @ [event_Timespan (StaticKey key) (etime (last (elems (events d)))) cat now]
      else elems (events d) @ [event_End (StaticKey key) cat now])"
  by (simp add: ptd_EndScope_def ptd_priv_EndScope_def with_AtomicRef_steps
      load_EmplaceBack_def EventList_EmplaceBack_def EventList_IsEmpty_def Let_def)

lemma elems_CounterDelta:
  "elems (events (snd (ptd_CounterDelta dkey x cat now d)))
     = elems (events d) @ [event_CounterDelta (DynamicKey dkey) x cat now]"
  by (simp add: ptd_CounterDelta_def with_AtomicRef_steps load_EmplaceBack_def
      EventList_EmplaceBack_def)

lemma elems_CounterValue:
  "elems (events (snd (ptd_CounterValue dkey x cat now d)))
     = elems (events d) @ [event_CounterValue (DynamicKey dkey) x cat now]"
  by (simp add: ptd_CounterValue_def with_AtomicRef_steps load_EmplaceBack_def
      EventList_EmplaceBack_def)

text \<open>
  Claim C8. With the gate on, \<open>RecordCounterDelta\<close> appends to the list of the calling
  thread one event of kind \<open>CounterDelta\<close>, and \<open>RecordCounterValue\<close> one event of
  kind \<open>CounterValue\<close>; the two kinds differ, and the payload of the event is the
  64-bit pattern of the double that was passed.
\<close>

theorem counters_recorded:
  assumes "isEnabled c = 1"
  shows "thread_events tid (snd (RecordCounterDelta key x cat tid now c))
           = thread_events tid c
               @ [\<lparr>etype = CounterDelta, ekey = StaticKey key, ecategory = cat, etime = now,
                   epayload = CounterPayload x\<rparr>] \<and>
         thread_events tid (snd (RecordCounterValue key x cat tid now c))
           = thread_events tid c
               @ [\<lparr>etype = CounterValue, ekey = StaticKey key, ecategory = cat, etime = now,
                   epayload = CounterPayload x\<rparr>] \<and>
         thread_events tid (snd (RecordCounterDelta_Key dkey x cat tid now c))
           = thread_events tid c
               @ [\<lparr>etype = CounterDelta, ekey = DynamicKey dkey, ecategory = cat, etime = now,
                   epayload = CounterPayload x\<rparr>] \<and>
         thread_events tid (snd (RecordCounterValue_Key dkey x cat tid now c))
           = thread_events tid c
               @ [\<lparr>etype = CounterValue, ekey = DynamicKey dkey, ecategory = cat, etime = now,
                   epayload = CounterPayload x\<rparr>] \<and>
         CounterDelta \<noteq> CounterValue"
  using assms
  by (simp add: thread_events_def RecordCounterDelta_def RecordCounterValue_def
      RecordCounterDelta_Key_def RecordCounterValue_Key_def thread_data_enabled
      preserves_EmplaceEvent preserves_CounterDelta preserves_CounterValue
      elems_EmplaceEvent elems_CounterDelta elems_CounterValue
      event_CounterDelta_def event_CounterValue_def)

theorem counters_recorded_witness:
  "isEnabled collector_on = 1 \<and>
   thread_events 2 (snd (RecordCounterDelta 3 0x3FF8000000000000 0 2 5 collector_on))
     = [\<lparr>etype = CounterDelta, ekey = StaticKey 3, ecategory = 0, etime = 5,
         epayload = CounterPayload 0x3FF8000000000000\<rparr>] \<and>
   thread_events 2 (snd (RecordCounterValue 3 0x3FF8000000000000 0 2 5 collector_on))
     = [\<lparr>etype = CounterValue, ekey = StaticKey 3, ecategory = 0, etime = 5,
         epayload = CounterPayload 0x3FF8000000000000\<rparr>]"
proof -
  have on: "isEnabled collector_on = 1"
    by (simp add: collector_on_def)
  have none: "thread_events 2 collector_on = []"
    by (simp add: thread_events_def thread_data_def collector_on_def PerThreadData_new_def
        EventList_new_def)
  show ?thesis
    using on none
      counters_recorded
        [OF on, where tid = 2 and key = 3 and x = "0x3FF8000000000000" and cat = 0 and now = 5]
    by simp
qed

text \<open>
  Claim C6. \<open>BeginScope\<close> on a slot appends a \<open>Begin\<close> event. \<open>EndScope\<close> looks at
  the last event of the list: if it is a \<open>Begin\<close> with the same key and category, the
  event is rewritten into a \<open>Timespan\<close> from the time of the \<open>Begin\<close> to now;
  otherwise an \<open>End\<close> event is appended. So, with the gate on, \<open>BeginScope\<close>
  followed at once by \<open>EndScope\<close> with the same key and category adds exactly one
  event to the list of the thread, a \<open>Timespan\<close>.
\<close>

theorem scope_fusion:
  assumes "isEnabled c = 1"
  shows "elems (events (snd (ptd_BeginScope key cat tb d)))
           = elems (events d) @ [event_Begin (StaticKey key) cat tb] \<and>
         elems (events (snd (ptd_EndScope key cat te d)))
           = (if elems (events d) \<noteq> [] \<and> matching_Begin key cat (last (elems (events d)))
              then butlast (elems (events d))
                     @ [event_Timespan (StaticKey key) (etime (last (elems (events d)))) cat te]
              else elems (events d) @ [event_End (StaticKey key) cat te]) \<and>
         thread_events tid (snd (EndScope key cat tid te (snd (BeginScope key cat tid tb c))))
           = thread_events tid c
               @ [\<lparr>etype = Timespan, ekey = StaticKey key, ecategory = cat, etime = tb,
                   epayload = EndTime te\<rparr>]"
proof (intro conjI)
  let ?cb = "snd (BeginScope key cat tid tb c)"
  have onb: "isEnabled ?cb = 1"
    using assms by (simp add: BeginScope_def priv_BeginScope_def enabled_after)
  have evb: "thread_events tid ?cb = thread_events tid c @ [event_Begin (StaticKey key) cat tb]"
    using assms
    by (simp add: thread_events_def BeginScope_def priv_BeginScope_def thread_data_enabled
        preserves_BeginScope elems_BeginScope)
  have "thread_events tid (snd (EndScope key cat tid te ?cb))
          = elems (events (snd (ptd_EndScope key cat te (thread_data tid ?cb))))"
    using onb
    by (simp add: thread_events_def EndScope_def priv_EndScope_def thread_data_enabled
        preserves_EndScope)
  also have "\<dots> = thread_events tid c @ [event_Timespan (StaticKey key) tb cat te]"
    using evb
    by (simp add: elems_EndScope thread_events_def matching_Begin_def event_Begin_def)
  finally show "thread_events tid (snd (EndScope key cat tid te ?cb))
                  = thread_events tid c
                      @ [\<lparr>etype = Timespan, ekey = StaticKey key, ecategory = cat, etime = tb,
                          epayload = EndTime te\<rparr>]"
    by (simp add: event_Timespan_def)
qed (simp_all add: elems_BeginScope elems_EndScope)

theorem scope_fusion_witness:
  "isEnabled collector_on = 1 \<and>
   thread_events 2 (snd (EndScope 7 0 2 20 (snd (BeginScope 7 0 2 10 collector_on))))
     = [\<lparr>etype = Timespan, ekey = StaticKey 7, ecategory = 0, etime = 10,
         epayload = EndTime 20\<rparr>]"
proof -
  have on: "isEnabled collector_on = 1"
    by (simp add: collector_on_def)
  have none: "thread_events 2 collector_on = []"
    by (simp add: thread_events_def thread_data_def collector_on_def PerThreadData_new_def
        EventList_new_def)
  show ?thesis
    using on none
      scope_fusion [OF on, where tid = 2 and key = 7 and cat = 0 and tb = 10 and te = 20]
    by simp
qed

subsection \<open>Values stored inline and values stored in the arena\<close>



lemma ptd_StoreLargeData_CharPointer:
  "ptd_StoreLargeData key (CharPointer m) cat now d =
     (let e = event_Data (StaticKey key) (ArenaPointer (length (arena (events d)))) cat now
      in (protocol_steps [call_StoreData (StringCopy (c_string m)), call_EmplaceBack e],
          d\<lparr>writing := False,
            events := \<lparr>elems = elems (events d) @ [e],
                       arena = arena (events d) @ [StringCopy (c_string m)]\<rparr>\<rparr>))"
  by (simp add: ptd_StoreLargeData_def with_AtomicRef_steps EventList_StoreData_def
      protocol_steps_def EventList_EmplaceBack_def Let_def)






subsection \<open>Argument packs\<close>

text \<open>
  Claim C9. A call of \<open>ScopeArgs\<close> or of \<open>BeginScope\<close> with data arguments whose
  pack has an odd number of arguments does not compile: the static assertion
  \<open>sizeof...(Args) % 2 == 0\<close> fails.
\<close>

theorem odd_pack_rejected:
  assumes "odd (length args)"
  shows "ScopeArgs_cat cat args tid now = Inl (static_assert_failed pairs_message) \<and>
         ScopeArgs args tid now = Inl (static_assert_failed pairs_message) \<and>
         BeginScope_cat_args key cat args tid now = Inl (static_assert_failed pairs_message) \<and>
         BeginScope_args key args tid now = Inl (static_assert_failed pairs_message)"
  using assms
  by (simp add: ScopeArgs_cat_def ScopeArgs_def BeginScope_cat_args_def BeginScope_args_def
      odd_iff_mod_2_eq_one)

theorem odd_pack_rejected_witness:
  "odd (length [KeyArg 1, ValueArg (BoolValue True), KeyArg 2]) \<and>
   ScopeArgs_cat 0 [KeyArg 1, ValueArg (BoolValue True), KeyArg 2] 2 5
     = Inl (static_assert_failed ''Data arguments must come in pairs'') \<and>
   ScopeArgs [KeyArg 1, ValueArg (BoolValue True), KeyArg 2] 2 5
     = Inl (static_assert_failed ''Data arguments must come in pairs'') \<and>
   BeginScope_cat_args 9 0 [KeyArg 1, ValueArg (BoolValue True), KeyArg 2] 2 5
     = Inl (static_assert_failed ''Data arguments must come in pairs'') \<and>
   BeginScope_args 9 [KeyArg 1, ValueArg (BoolValue True), KeyArg 2] 2 5
     = Inl (static_assert_failed ''Data arguments must come in pairs'')"
proof -
  have odd3: "odd (length [KeyArg 1, ValueArg (BoolValue True), KeyArg 2])"
    by simp
  show ?thesis
    using odd3
      odd_pack_rejected [OF odd3, where cat = 0 and tid = 2 and now = 5 and key = 9]
    by (simp add: pairs_message_def)
qed

text \<open>A pack of one key and one value compiles.\<close>

lemma even_pack_accepted:
  "ScopeArgs_cat 0 [KeyArg 1, ValueArg (BoolValue True)] 2 5
     = Inr (if_enabled (with_thread_data 2
         (then_op (priv_StoreData 1 0 (BoolValue True) 5) (\<lambda>d. ([], d)))))"
  by (simp add: ScopeArgs_cat_def)

text \<open>
  Claim C10. With the gate on, \<open>ScopeArgs\<close> with a category and an empty pack appends
  no event: the collector is returned as it was, but for the slot of the calling thread,
  which is created with an empty list and registered if the thread had none.
\<close>

theorem ScopeArgs_empty_pack:
  assumes "isEnabled c = 1"
  shows "case ScopeArgs_cat cat [] tid now of
           Inl err \<Rightarrow> False
         | Inr f \<Rightarrow>
             f c =
               (if slot_of tid (allPerThreadData c) = None
                then ([load_isEnabled memory_order_acquire, insert_PerThreadData tid],
                      c\<lparr>allPerThreadData := allPerThreadData c @ [PerThreadData_new tid]\<rparr>)
                else ([load_isEnabled memory_order_acquire], c))"
  using assms
  by (auto simp add: ScopeArgs_cat_def if_enabled_on with_thread_data_eq
      dest: slot_of_Some split: option.splits)

theorem ScopeArgs_empty_pack_witness:
  "isEnabled collector_on = 1 \<and>
   (case ScopeArgs_cat 0 [] 3 5 of
      Inl err \<Rightarrow> False
    | Inr f \<Rightarrow>
        f collector_on =
          ([load_isEnabled memory_order_acquire, insert_PerThreadData 3],
           collector_on\<lparr>allPerThreadData := [PerThreadData_new 3]\<rparr>))"
proof -
  have on: "isEnabled collector_on = 1"
    by (simp add: collector_on_def)
  have none: "slot_of 3 (allPerThreadData collector_on) = None"
    by (simp add: collector_on_def)
  have no_slots: "allPerThreadData collector_on = []"
    by (simp add: collector_on_def)
  show ?thesis
    using on none no_slots ScopeArgs_empty_pack [OF on, where cat = 0 and tid = 3 and now = 5]
    by (simp split: sum.splits)
qed

subsection \<open>The harvest\<close>

lemma GetCollectionData_idle:
  "\<not> writing d \<Longrightarrow>
   ptd_GetCollectionData d =
     Some ([exchange_events memory_order_acq_rel, load_writing memory_order_acquire],
           events d, d\<lparr>events := EventList_new\<rparr>)"
  by (simp add: ptd_GetCollectionData_def spin_while_writing.simps)

lemma harvest_idle:
  "all_idle ds \<Longrightarrow> harvest ds = Some (harvest_steps ds, collected ds, restarted ds)"
  by (induction ds)
    (simp_all add: all_idle_def harvest_steps_def collected_def restarted_def
      GetCollectionData_idle)

lemma collected_all_events:
  "concat (map (\<lambda>p. elems (snd p)) (collected ds)) = concat (map (\<lambda>d. elems (events d)) ds)"
  by (induction ds) (simp_all add: collected_def EventList_IsEmpty_def)

lemma CreateCollection_idle:
  "all_idle (allPerThreadData c) \<Longrightarrow>
   CreateCollection c =
     Some (harvest_steps (allPerThreadData c)
             @ [send_TraceCollectionAvailable \<lparr>lists = collected (allPerThreadData c)\<rparr>],
           (),
           c\<lparr>allPerThreadData := restarted (allPerThreadData c)\<rparr>)"
  by (simp add: CreateCollection_def harvest_idle)

text \<open>
  Claim C1, as amended. When no slot is inside an append, \<open>CreateCollection\<close> swaps
  the list of every slot for a fresh one, builds a collection of the lists that are not
  empty, which together hold every event recorded in the collector, and sends it in a
  \<open>TraceCollectionAvailable\<close> notice. It returns nothing to its caller.
\<close>

theorem CreateCollection_sends_notice:
  assumes "all_idle (allPerThreadData c)"
  shows "CreateCollection c =
           Some (harvest_steps (allPerThreadData c)
                   @ [send_TraceCollectionAvailable \<lparr>lists = collected (allPerThreadData c)\<rparr>],
                 (),
                 c\<lparr>allPerThreadData := restarted (allPerThreadData c)\<rparr>) \<and>
         concat (map (\<lambda>p. elems (snd p)) (collected (allPerThreadData c)))
           = concat (map (\<lambda>d. elems (events d)) (allPerThreadData c))"
  using assms by (simp add: CreateCollection_idle collected_all_events)

theorem CreateCollection_sends_notice_witness:
  "all_idle (allPerThreadData collector_two_threads) \<and>
   CreateCollection collector_two_threads =
     Some (harvest_steps (allPerThreadData collector_two_threads)
             @ [send_TraceCollectionAvailable
                  \<lparr>lists = [(1, \<lparr>elems = [event_Begin (StaticKey 7) 0 10], arena = []\<rparr>)]\<rparr>],
           (),
           collector_two_threads
             \<lparr>allPerThreadData := restarted (allPerThreadData collector_two_threads)\<rparr>)"
proof -
  have idle: "all_idle (allPerThreadData collector_two_threads)"
    by (simp add: all_idle_def collector_two_threads_def)
  have col: "collected (allPerThreadData collector_two_threads)
               = [(1, \<lparr>elems = [event_Begin (StaticKey 7) 0 10], arena = []\<rparr>)]"
    by (simp add: collected_def collector_two_threads_def EventList_IsEmpty_def
        EventList_new_def)
  show ?thesis
    using idle col CreateCollection_sends_notice [OF idle] by simp
qed

text \<open>
  The claim as stated fails: for a collector with one recorded event the call returns
  \<open>()\<close>, the value of a \<open>void\<close> function, and the collection is in the notice.
\<close>

theorem CreateCollection_returns_void:
  "CreateCollection collector_two_threads =
     Some ([exchange_events memory_order_acq_rel, load_writing memory_order_acquire,
            exchange_events memory_order_acq_rel, load_writing memory_order_acquire,
            send_TraceCollectionAvailable
              \<lparr>lists = [(1, \<lparr>elems = [event_Begin (StaticKey 7) 0 10], arena = []\<rparr>)]\<rparr>],
           (),
           collector_two_threads
             \<lparr>allPerThreadData :=
                [\<lparr>writing = False, events = EventList_new, threadIndex = 1\<rparr>,
                 \<lparr>writing = False, events = EventList_new, threadIndex = 2\<rparr>]\<rparr>)"
  by (simp add: CreateCollection_def collector_two_threads_def GetCollectionData_idle
      EventList_IsEmpty_def EventList_new_def)

subsection \<open>Strings stored in the arena\<close>

text \<open>The public operations are the calls of \<open>run_api\<close>.\<close>

lemma public_operations_are_calls:
  "BeginScope key cat tid now c
     = if_enabled (with_thread_data tid (run_call (Call_BeginScope key cat now))) c"
  "EndScope key cat tid now c
     = if_enabled (with_thread_data tid (run_call (Call_EndScope key cat now))) c"
  "StoreData key v cat tid now c
     = if_enabled (with_thread_data tid (run_call (Call_StoreData key cat v now))) c"
  "Scope key start cat tid now c
     = if_enabled (with_thread_data tid
         (run_call (Call_EmplaceEvent (event_Timespan (StaticKey key) start cat now)))) c"
  "RecordCounterDelta key x cat tid now c
     = if_enabled (with_thread_data tid
         (run_call (Call_EmplaceEvent (event_CounterDelta (StaticKey key) x cat now)))) c"
  "RecordCounterValue key x cat tid now c
     = if_enabled (with_thread_data tid
         (run_call (Call_EmplaceEvent (event_CounterValue (StaticKey key) x cat now)))) c"
  "RecordCounterDelta_Key dkey x cat tid now c
     = if_enabled (with_thread_data tid (run_call (Call_CounterDelta dkey x cat now))) c"
  "RecordCounterValue_Key dkey x cat tid now c
     = if_enabled (with_thread_data tid (run_call (Call_CounterValue dkey x cat now))) c"
  by (simp_all add: BeginScope_def priv_BeginScope_def EndScope_def priv_EndScope_def
      StoreData_def Scope_def RecordCounterDelta_def RecordCounterValue_def
      RecordCounterDelta_Key_def RecordCounterValue_Key_def del: priv_StoreData.simps)

lemma payload_string_Some:
  "payload_string l e = Some s \<longleftrightarrow>
     (\<exists>a. epayload e = ArenaPointer a \<and> a < length (arena l) \<and> arena l ! a = StringCopy s)"
  by (auto simp add: payload_string_def read_arena_def
      split: Payload.splits option.splits ArenaBlock.splits if_splits)

lemma holds_EmplaceBack:
  "holds_string n s l \<Longrightarrow> holds_string n s (EventList_EmplaceBack e l)"
  by (auto simp add: holds_string_def payload_string_Some EventList_EmplaceBack_def nth_append)

lemma holds_StoreData:
  "holds_string n s l \<Longrightarrow> holds_string n s (snd (EventList_StoreData x l))"
  by (auto simp add: holds_string_def payload_string_Some EventList_StoreData_def nth_append)

lemma holds_rewrite:
  assumes "holds_string n s l" and "elems l \<noteq> []" and "etype (last (elems l)) = Begin"
  shows "holds_string n s (l\<lparr>elems := butlast (elems l) @ [e]\<rparr>)"
proof -
  have "n \<noteq> length (elems l) - 1"
    using assms by (auto simp add: holds_string_def last_conv_nth)
  moreover have "n < length (elems l)"
    using assms(1) by (simp add: holds_string_def)
  ultimately have "n < length (butlast (elems l))"
    by (simp only: length_butlast)
  then show ?thesis
    using assms(1)
    by (auto simp add: holds_string_def payload_string_Some nth_append nth_butlast)
qed

lemma events_with_AtomicRef:
  "events (snd (with_AtomicRef body d)) = events (snd (body (d\<lparr>writing := True\<rparr>)))"
  by (simp add: with_AtomicRef_steps)

lemma holds_load_EmplaceBack:
  "holds_string n s (events d) \<Longrightarrow>
   holds_string n s (events (snd (with_AtomicRef (load_EmplaceBack e) d)))"
  by (simp add: events_with_AtomicRef load_EmplaceBack_def holds_EmplaceBack)

lemma holds_EndScope:
  "holds_string n s (events d) \<Longrightarrow> holds_string n s (events (snd (ptd_EndScope key cat now d)))"
  by (simp add: ptd_EndScope_def events_with_AtomicRef ptd_priv_EndScope_def Let_def
      load_EmplaceBack_def holds_EmplaceBack holds_rewrite EventList_IsEmpty_def
      matching_Begin_def)

lemma holds_StoreLargeData:
  "holds_string n s (events d) \<Longrightarrow>
   holds_string n s (events (snd (ptd_StoreLargeData key x cat now d)))"
  using holds_EmplaceBack [OF holds_StoreData, of n s "events d" _ x]
  by (simp add: ptd_StoreLargeData_def events_with_AtomicRef case_prod_beta Let_def)

lemma holds_priv_StoreData:
  "holds_string n s (events d) \<Longrightarrow>
   holds_string n s (events (snd (priv_StoreData key cat v now d)))"
  by (cases v) (simp_all add: holds_StoreLargeData ptd_StoreData_def holds_load_EmplaceBack)

lemma holds_run_call:
  "holds_string n s (events d) \<Longrightarrow> holds_string n s (events (snd (run_call x d)))"
  by (cases x)
    (simp_all add: holds_priv_StoreData holds_EndScope holds_load_EmplaceBack
      ptd_BeginScope_def ptd_priv_BeginScope_def ptd_EmplaceEvent_def ptd_CounterDelta_def
      ptd_CounterValue_def ptd_BeginEvent_def ptd_EndEvent_def steps_and_state_def
      case_prod_beta)

lemma idle_priv_StoreData: "\<not> writing (snd (priv_StoreData key cat v now d))"
  using follows_StoreData follows_StoreLargeData
  by (cases v) (simp_all add: follows_protocol_def)

lemma idle_run_call: "\<not> writing (snd (run_call x d))"
proof (cases x)
  case (Call_StoreData key cat v now)
  then show ?thesis by (simp add: idle_priv_StoreData)
qed (use follows_BeginScope follows_EndScope follows_EmplaceEvent follows_BeginEvent
      follows_EndEvent follows_CounterDelta follows_CounterValue
     in \<open>simp_all add: follows_protocol_def\<close>)

lemma holds_after_store:
  "holds_string (length (elems (events d))) (c_string m)
     (events (snd (ptd_StoreLargeData key (CharPointer m) cat now d)))"
  by (simp add: ptd_StoreLargeData_CharPointer Let_def holds_string_def payload_string_def
      read_arena_def event_Data_def)

lemma c_string_c_str: "c_string (c_str s) = takeWhile (\<lambda>ch. ch \<noteq> CHR 0x00) s"
  by (induction s) (simp_all add: c_string_def c_str_def)

lemma c_string_no_NUL: "CHR 0x00 \<notin> set s \<Longrightarrow> c_string (c_str s) = s"
  by (auto simp add: c_string_c_str)

lemma BeginEvent_EndEvent_are_calls:
  "snd (snd (BeginEvent dkey cat tid now c))
     = run_api (Thread_calls tid (Call_BeginEvent dkey cat now)) c"
  "snd (snd (EndEvent dkey cat tid now c))
     = run_api (Thread_calls tid (Call_EndEvent dkey cat now)) c"
  by (simp_all add: BeginEvent_def EndEvent_def if_enabled_def with_thread_data_def
      at_slot_def steps_and_state_def case_prod_beta)

lemma preserves_StoreLargeData: "preserves_threadIndex (ptd_StoreLargeData key x cat now)"
  unfolding ptd_StoreLargeData_def
  by (rule preserves_with_AtomicRef) (simp add: preserves_threadIndex_def case_prod_beta Let_def)

lemma preserves_StoreData: "preserves_threadIndex (ptd_StoreData key v cat now)"
  by (simp add: ptd_StoreData_def preserves_with_AtomicRef preserves_load_EmplaceBack)

lemma preserves_priv_StoreData: "preserves_threadIndex (priv_StoreData key cat v now)"
  by (cases v) (simp_all add: preserves_StoreLargeData preserves_StoreData)

lemma preserves_run_call: "preserves_threadIndex (run_call x)"
proof (cases x)
  case (Call_BeginEvent dkey cat now)
  then show ?thesis
    using preserves_with_AtomicRef [OF preserves_load_EmplaceBack]
    by (simp add: preserves_threadIndex_def steps_and_state_def ptd_BeginEvent_def
        case_prod_beta)
next
  case (Call_EndEvent dkey cat now)
  then show ?thesis
    using preserves_with_AtomicRef [OF preserves_load_EmplaceBack]
    by (simp add: preserves_threadIndex_def steps_and_state_def ptd_EndEvent_def
        case_prod_beta)
qed (simp_all add: preserves_BeginScope preserves_EndScope preserves_priv_StoreData
      preserves_EmplaceEvent preserves_CounterDelta preserves_CounterValue
      del: priv_StoreData.simps)

lemma all_idle_with_thread_data:
  assumes "all_idle (allPerThreadData c)" and "\<And>d. \<not> writing (snd (f d))"
  shows "all_idle (allPerThreadData (snd (with_thread_data tid f c)))"
proof (cases "slot_of tid (allPerThreadData c)")
  case None
  then show ?thesis
    using assms by (simp add: with_thread_data_eq all_idle_def)
next
  case (Some p)
  have "set ((allPerThreadData c)[p := snd (f (allPerThreadData c ! p))])
          \<subseteq> insert (snd (f (allPerThreadData c ! p))) (set (allPerThreadData c))"
    by (rule set_update_subset_insert)
  then show ?thesis
    using Some assms by (auto simp add: with_thread_data_eq all_idle_def list_all_iff)
qed

lemma all_idle_run_api:
  "all_idle (allPerThreadData c) \<Longrightarrow> all_idle (allPerThreadData (run_api a c))"
proof (cases a)
  case (Thread_calls tid x)
  assume "all_idle (allPerThreadData c)"
  then show ?thesis
    using Thread_calls all_idle_with_thread_data [of c "run_call x" tid] idle_run_call
    by (cases "isEnabled c = 1") (simp_all add: if_enabled_on if_enabled_off)
qed

lemma enabled_run_api: "isEnabled (run_api a c) = isEnabled c"
  by (cases a) (simp add: enabled_after)

lemma holds_run_api:
  assumes "holds_string n s (events (thread_data tid c))"
  shows "holds_string n s (events (thread_data tid (run_api a c)))"
proof (cases a)
  case (Thread_calls tid' x)
  show ?thesis
  proof (cases "isEnabled c = 1")
    case False
    then show ?thesis
      using assms Thread_calls by (simp add: if_enabled_off)
  next
    case True
    show ?thesis
    proof (cases "tid' = tid")
      case True
      then show ?thesis
        using assms Thread_calls \<open>isEnabled c = 1\<close>
        by (simp add: thread_data_enabled preserves_run_call holds_run_call)
    next
      case False
      then have "thread_data tid (snd (with_thread_data tid' (run_call x) c)) = thread_data tid c"
        using thread_data_other [OF preserves_run_call, of tid tid' x c] by simp
      then show ?thesis
        using assms Thread_calls \<open>isEnabled c = 1\<close> by (simp add: if_enabled_on)
    qed
  qed
qed

lemma run_apis_invariant:
  assumes "all_idle (allPerThreadData c)" and "holds_string n s (events (thread_data tid c))"
  shows "all_idle (allPerThreadData (run_apis calls c)) \<and>
         holds_string n s (events (thread_data tid (run_apis calls c)))"
  using assms
  by (induction calls arbitrary: c) (simp_all add: all_idle_run_api holds_run_api)

lemma holds_collected:
  assumes "holds_string n s (events (thread_data tid c))"
  shows "(tid, events (thread_data tid c)) \<in> set (collected (allPerThreadData c))"
proof (cases "slot_of tid (allPerThreadData c)")
  case None
  then show ?thesis
    using assms
    by (simp add: thread_data_def holds_string_def PerThreadData_new_def EventList_new_def)
next
  case (Some p)
  then have p: "p < length (allPerThreadData c)" "threadIndex (allPerThreadData c ! p) = tid"
    using slot_of_Some by blast+
  have "\<not> EventList_IsEmpty (events (allPerThreadData c ! p))"
    using assms Some by (auto simp add: thread_data_def holds_string_def EventList_IsEmpty_def)
  then show ?thesis
    using Some p by (force simp add: collected_def thread_data_def intro: nth_mem)
qed

lemma harvested_after_StoreData:
  assumes "isEnabled c = 1" and "all_idle (allPerThreadData c)"
    and stored: "holds_string (length (thread_events tid c)) str
                   (events (snd (priv_StoreData key cat v now (thread_data tid c))))"
  shows "harvested_with_string (after_StoreData key v cat tid now calls c) tid
           (length (thread_events tid c)) str"
proof -
  let ?c1 = "snd (StoreData key v cat tid now c)"
  let ?c2 = "after_StoreData key v cat tid now calls c"
  have idle1: "all_idle (allPerThreadData ?c1)"
    using assms(1,2) all_idle_with_thread_data [of c "priv_StoreData key cat v now" tid]
      idle_priv_StoreData
    by (simp add: StoreData_def if_enabled_on del: priv_StoreData.simps)
  have "thread_data tid ?c1 = snd (priv_StoreData key cat v now (thread_data tid c))"
    using assms(1)
    by (simp add: StoreData_def thread_data_enabled preserves_priv_StoreData
        del: priv_StoreData.simps)
  then have holds1: "holds_string (length (thread_events tid c)) str
                       (events (thread_data tid ?c1))"
    using stored by simp
  have "all_idle (allPerThreadData ?c2) \<and>
        holds_string (length (thread_events tid c)) str (events (thread_data tid ?c2))"
    unfolding after_StoreData_def using idle1 holds1 by (rule run_apis_invariant)
  then have idle2: "all_idle (allPerThreadData ?c2)"
    and holds2: "holds_string (length (thread_events tid c)) str
                   (events (thread_data tid ?c2))"
    by simp_all
  show ?thesis
    using CreateCollection_idle [OF idle2] holds_collected [OF holds2] holds2
    by (simp add: harvested_with_string_def Let_def)
qed

text \<open>
  Claim C5, as amended. A string passed to \<open>StoreData\<close> reaches the slot as a
  \<open>const char*\<close>, so what is copied to the arena is the string up to its first NUL
  byte. Whatever the threads record afterwards, the collection of the next harvest has
  the list of the thread, and in it the event, at the position where it was appended,
  leads to that copy; a string with no NUL byte is read back as it was passed.
\<close>

theorem stored_string_harvested:
  assumes "isEnabled c = 1" and "all_idle (allPerThreadData c)"
  shows "harvested_with_string (after_StoreData key (StdStringValue s) cat tid now calls c) tid
           (length (thread_events tid c)) (takeWhile (\<lambda>ch. ch \<noteq> CHR 0x00) s) \<and>
         harvested_with_string (after_StoreData key (CStringValue m) cat tid now calls c) tid
           (length (thread_events tid c)) (takeWhile (\<lambda>ch. ch \<noteq> CHR 0x00) m) \<and>
         (CHR 0x00 \<notin> set s \<longrightarrow>
            harvested_with_string (after_StoreData key (StdStringValue s) cat tid now calls c)
              tid (length (thread_events tid c)) s)"
proof -
  have std: "harvested_with_string (after_StoreData key (StdStringValue s) cat tid now calls c)
               tid (length (thread_events tid c)) (c_string (c_str s))"
    using assms
    by (rule harvested_after_StoreData) (simp add: thread_events_def holds_after_store)
  have chr: "harvested_with_string (after_StoreData key (CStringValue m) cat tid now calls c)
               tid (length (thread_events tid c)) (c_string m)"
    using assms
    by (rule harvested_after_StoreData) (simp add: thread_events_def holds_after_store)
  have cs: "c_string (c_str s) = takeWhile (\<lambda>ch. ch \<noteq> CHR 0x00) s"
    by (rule c_string_c_str)
  have cm: "c_string m = takeWhile (\<lambda>ch. ch \<noteq> CHR 0x00) m"
    by (simp add: c_string_def)
  show ?thesis
  proof (intro conjI impI)
    show "harvested_with_string (after_StoreData key (StdStringValue s) cat tid now calls c)
            tid (length (thread_events tid c)) (takeWhile (\<lambda>ch. ch \<noteq> CHR 0x00) s)"
      using std by (simp only: cs)
    show "harvested_with_string (after_StoreData key (CStringValue m) cat tid now calls c)
            tid (length (thread_events tid c)) (takeWhile (\<lambda>ch. ch \<noteq> CHR 0x00) m)"
      using chr by (simp only: cm)
    show "harvested_with_string (after_StoreData key (StdStringValue s) cat tid now calls c)
            tid (length (thread_events tid c)) s"
      if "CHR 0x00 \<notin> set s"
      using std c_string_no_NUL [OF that] by simp
  qed
qed

theorem stored_string_harvested_witness:
  "isEnabled collector_on = 1 \<and>
   all_idle (allPerThreadData collector_on) \<and>
   CHR 0x00 \<notin> set ''hello'' \<and>
   harvested_with_string
     (after_StoreData 3 (StdStringValue ''hello'') 0 2 5
        [Thread_calls 2 (Call_BeginScope 7 0 6),
         Thread_calls 4 (Call_StoreData 3 0 (StdStringValue ''world'') 7),
         Thread_calls 2 (Call_EndScope 7 0 8)]
        collector_on)
     2 (length (thread_events 2 collector_on)) ''hello''"
proof -
  have on: "isEnabled collector_on = 1"
    by (simp add: collector_on_def)
  have idle: "all_idle (allPerThreadData collector_on)"
    by (simp add: collector_on_def all_idle_def)
  have no_NUL: "CHR 0x00 \<notin> set ''hello''"
    by simp
  note at_hello = stored_string_harvested
    [OF on idle, where key = 3 and s = "''hello''" and cat = 0 and tid = 2 and now = 5
      and calls = "[Thread_calls 2 (Call_BeginScope 7 0 6),
                    Thread_calls 4 (Call_StoreData 3 0 (StdStringValue ''world'') 7),
                    Thread_calls 2 (Call_EndScope 7 0 8)]"]
  show ?thesis
    by (intro conjI on idle no_NUL mp [OF conjunct2 [OF conjunct2 [OF at_hello]] no_NUL])
qed

text \<open>
  The scenario with the string \<open>hello\<close>, evaluated: the event and the arena of the
  harvested list.
\<close>

lemma hello_harvested:
  "CreateCollection (snd (StoreData 3 (StdStringValue ''hello'') 0 2 5 collector_on))
   = Some ([exchange_events memory_order_acq_rel, load_writing memory_order_acquire,
            send_TraceCollectionAvailable
              \<lparr>lists =
                 [(2, \<lparr>elems = [event_Data (StaticKey 3) (ArenaPointer 0) 0 5],
                       arena = [StringCopy ''hello'']\<rparr>)]\<rparr>],
           (),
           collector_on\<lparr>allPerThreadData := [PerThreadData_new 2]\<rparr>)"
  by (simp add: StoreData_def if_enabled_on collector_on_def with_thread_data_eq
      ptd_StoreLargeData_CharPointer Let_def PerThreadData_new_def EventList_new_def
      CreateCollection_def GetCollectionData_idle EventList_IsEmpty_def c_string_def c_str_def)

text \<open>
  The claim as stated fails for a \<open>std::string\<close> with a NUL byte inside. With the
  gate on, a thread stores the three bytes \<open>a\<close>, NUL, \<open>b\<close>; the list in the
  collection of the next harvest holds the one byte \<open>a\<close> for the event.
\<close>

theorem embedded_NUL_truncated:
  "CreateCollection
     (snd (StoreData 3 (StdStringValue [CHR ''a'', CHR 0x00, CHR ''b'']) 0 2 5 collector_on))
   = Some ([exchange_events memory_order_acq_rel, load_writing memory_order_acquire,
            send_TraceCollectionAvailable
              \<lparr>lists =
                 [(2, \<lparr>elems = [event_Data (StaticKey 3) (ArenaPointer 0) 0 5],
                       arena = [StringCopy ''a'']\<rparr>)]\<rparr>],
           (),
           collector_on\<lparr>allPerThreadData := [PerThreadData_new 2]\<rparr>) \<and>
   payload_string
     \<lparr>elems = [event_Data (StaticKey 3) (ArenaPointer 0) 0 5], arena = [StringCopy ''a'']\<rparr>
     (event_Data (StaticKey 3) (ArenaPointer 0) 0 5)
   = Some ''a'' \<and>
   ''a'' \<noteq> [CHR ''a'', CHR 0x00, CHR ''b'']"
  by (simp add: StoreData_def if_enabled_on collector_on_def with_thread_data_eq
      ptd_StoreLargeData_CharPointer Let_def PerThreadData_new_def EventList_new_def
      CreateCollection_def GetCollectionData_idle EventList_IsEmpty_def c_string_def c_str_def
      payload_string_def read_arena_def event_Data_def)

end
